theory Spec2Isabelle
  imports Main "HOL-Library.Sublist"
begin

section \<open>The purge plugin of \<^verbatim>\<open>src/index.ts\<close>\<close>

text \<open>
  The plugin is one closure, \<^verbatim>\<open>purgeCss(purgeOptions)\<close>, holding four mutable or constant
  cells (\<^verbatim>\<open>viteConfig\<close>, \<^verbatim>\<open>selectors\<close>, \<^verbatim>\<open>standard\<close>, \<^verbatim>\<open>moduleIds\<close>) and
  three hooks (\<^verbatim>\<open>load\<close>, \<^verbatim>\<open>configResolved\<close>, \<^verbatim>\<open>generateBundle\<close>). The closure is a record
  and each hook a function from the record to the updated record. Everything the hooks
  call and the repository does not define (the host's \<^verbatim>\<open>getModuleInfo\<close>, \<^verbatim>\<open>parse\<close> and
  \<^verbatim>\<open>emitFile\<close>, css-what's \<^verbatim>\<open>parse\<close>, \<^verbatim>\<open>new RegExp\<close>, \<^verbatim>\<open>path.join\<close>, the purge engine) is a
  field of an environment record or a logged effect.

  Strings are \<^typ>\<open>string\<close>: lists of code units below 256.
\<close>

subsection \<open>Data\<close>

text \<open>An element of a \<^verbatim>\<open>StringRegExpArray\<close>: a string, or a regular expression given by its
  pattern source.\<close>

datatype entry = Str string | Rx string

text \<open>\<^verbatim>\<open>ComplexSafelist\<close>; an absent key is \<^term>\<open>None\<close>.\<close>

record complex_safelist =
  sl_standard :: "entry list option"
  sl_deep :: "entry list option"
  sl_greedy :: "entry list option"
  sl_variables :: "entry list option"
  sl_keyframes :: "entry list option"

text \<open>An element of the engine's \<^verbatim>\<open>content\<close> option: a glob, or raw content with its
  extension.\<close>

datatype content_entry = Glob string | RawContent string string

text \<open>An element of the engine's \<^verbatim>\<open>css\<close> option as the plugin writes it:
  \<^verbatim>\<open>{ raw, name }\<close>.\<close>

record raw_css =
  raw :: string
  css_name :: string

text \<open>\<^verbatim>\<open>purgeOptions\<close>, the user's configuration. \<^verbatim>\<open>opt_other\<close> stands for every other
  engine-native option, as opaque key and value pairs.\<close>

record purge_options =
  opt_content :: "content_entry list option"
  opt_defaultExtractor :: "(string \<Rightarrow> string list) option"
  opt_safelist :: "complex_safelist option"
  opt_rejected :: "bool option"
  opt_rejectedCss :: "bool option"
  opt_other :: "(string \<times> string) list"

text \<open>The object literal handed to \<^verbatim>\<open>new PurgeCSS().purge\<close>.\<close>

record purge_args =
  content :: "content_entry list"
  css :: "raw_css list"
  rejected :: bool
  rejectedCss :: bool
  safelist :: complex_safelist
  arg_defaultExtractor :: "(string \<Rightarrow> string list) option"
  arg_other :: "(string \<times> string) list"

text \<open>One \<^verbatim>\<open>ResultPurge\<close> of the engine.\<close>

record result_purge =
  res_css :: string
  res_rejected :: "string list option"
  res_rejectedCss :: "string option"

text \<open>Everything that can abort \<^verbatim>\<open>generateBundle\<close>: the host's parser rejects a module, a
  property of \<^verbatim>\<open>undefined\<close> is read or a non-function is called, or the engine's promise
  rejects. The two syntax errors are what css-what and \<^verbatim>\<open>new RegExp\<close> throw.\<close>

datatype error =
    ParseError string
  | TypeError
  | SelectorSyntaxError
  | RegExpSyntaxError
  | PurgeError string

text \<open>The syntax tree. \<^verbatim>\<open>estree-walker\<close> enters a node and then its child nodes in key
  order; a node is its kind (the \<^verbatim>\<open>type\<close> tag with the properties the visitor reads) and
  its child nodes in that order.\<close>

datatype js_value = VString string | VNumber int | VBoolean bool | VNull | VRegExp string

datatype node_kind =
    Literal js_value
  | Identifier string
  | TemplateElement "string option" string
  | OtherNode string

datatype node = Node node_kind "node list"

text \<open>\<^verbatim>\<open>ModuleInfo\<close>, as far as it is read.\<close>

record module_info =
  isIncluded :: "bool option"
  code :: "string option"

text \<open>A bundle entry. \<^verbatim>\<open>source\<close> of an asset is a string or a \<^verbatim>\<open>Uint8Array\<close>.\<close>

datatype asset_source = Text string | Bytes "nat list"

record output_asset =
  fileName :: string
  asset_name :: "string option"
  needsCodeReference :: bool
  source :: asset_source

record output_chunk =
  chunk_fileName :: string
  chunk_code :: string

datatype chunk_or_asset = Chunk output_chunk | Asset output_asset

text \<open>The bundle is a JavaScript object: an association list in enumeration order, whose
  keys are distinct.\<close>

type_synonym output_bundle = "(string \<times> chunk_or_asset) list"

text \<open>The collaborators.\<close>

record env =
  getModuleInfo :: "string \<Rightarrow> module_info option"
  this_parse :: "string \<Rightarrow> error + node"
  css_what_parse :: "string \<Rightarrow> error + unit"
  new_RegExp :: "string \<Rightarrow> error + unit"
  path_join :: "string \<Rightarrow> string \<Rightarrow> string"
  purge :: "purge_args \<Rightarrow> error + result_purge list"

text \<open>The closure of one \<^verbatim>\<open>purgeCss\<close> call. \<^verbatim>\<open>viteConfig\<close> holds the root of the resolved
  configuration, once \<^verbatim>\<open>configResolved\<close> has run. The two \<^verbatim>\<open>Set\<close>s are lists without
  duplicates, in insertion order.\<close>

record plugin =
  purgeOptions :: "purge_options option"
  viteConfig :: "string option"
  selectors :: "string list"
  standard :: "entry list"
  extractor :: "string \<Rightarrow> string list"
  moduleIds :: "string list"

text \<open>What one \<^verbatim>\<open>generateBundle\<close> leaves behind: the bundle, the arguments of the
  \<^verbatim>\<open>emitFile\<close> calls and the arguments of the engine calls, each in call order.\<close>

record outcome =
  out_bundle :: output_bundle
  emitted :: "output_asset list"
  purge_calls :: "purge_args list"

subsection \<open>Operations\<close>

text \<open>\<^verbatim>\<open>/\.(css)$/.test(s)\<close>: the string ends in \<^verbatim>\<open>.css\<close>.\<close>

definition EXT_CSS :: "string \<Rightarrow> bool" where
  "EXT_CSS s = (4 \<le> length s \<and> drop (length s - 4) s = ''.css'')"

text \<open>\<^verbatim>\<open>Set.prototype.add\<close>.\<close>

definition set_add :: "string \<Rightarrow> string list \<Rightarrow> string list" where
  "set_add x s = (if x \<in> set s then s else s @ [x])"

text \<open>\<^verbatim>\<open>String.prototype.trim\<close>, on code units below 256: tab, line feed, vertical tab,
  form feed, carriage return, space and no-break space.\<close>

definition is_white_space :: "char \<Rightarrow> bool" where
  "is_white_space c = (of_char c \<in> {9, 10, 11, 12, 13, 32, 160 :: nat})"

definition trim :: "string \<Rightarrow> string" where
  "trim s = rev (dropWhile is_white_space (rev (dropWhile is_white_space s)))"

text \<open>\<^verbatim>\<open>a ?? b\<close>.\<close>

definition nullish :: "'a option \<Rightarrow> 'a \<Rightarrow> 'a" where
  "nullish a b = (case a of None \<Rightarrow> b | Some v \<Rightarrow> v)"

text \<open>\<^verbatim>\<open>purgeOptions?.safelist?.standard\<close>, \<^verbatim>\<open>purgeOptions?.safelist?.greedy\<close>,
  \<^verbatim>\<open>purgeOptions?.content\<close>, \<^verbatim>\<open>purgeOptions?.defaultExtractor\<close>.\<close>

definition user_safelist :: "purge_options option \<Rightarrow> complex_safelist option" where
  "user_safelist po = (case po of None \<Rightarrow> None | Some p \<Rightarrow> opt_safelist p)"

definition user_standard :: "purge_options option \<Rightarrow> entry list option" where
  "user_standard po = (case user_safelist po of None \<Rightarrow> None | Some s \<Rightarrow> sl_standard s)"

definition user_greedy :: "purge_options option \<Rightarrow> entry list option" where
  "user_greedy po = (case user_safelist po of None \<Rightarrow> None | Some s \<Rightarrow> sl_greedy s)"

definition user_content :: "purge_options option \<Rightarrow> content_entry list option" where
  "user_content po = (case po of None \<Rightarrow> None | Some p \<Rightarrow> opt_content p)"

definition user_extractor :: "purge_options option \<Rightarrow> (string \<Rightarrow> string list) option" where
  "user_extractor po = (case po of None \<Rightarrow> None | Some p \<Rightarrow> opt_defaultExtractor p)"

text \<open>\<^verbatim>\<open>purgeCss(purgeOptions)\<close>. Its first argument is the value of \<^verbatim>\<open>defaultExtractor()\<close>,
  of \<^verbatim>\<open>./extractors/default-extractor\<close>. The last baseline pattern is
  \<^verbatim>\<open>/^\:[-a-z]+$/\<close>; its second character is a backslash, code 92.\<close>

definition purgeCss :: "(string \<Rightarrow> string list) \<Rightarrow> purge_options option \<Rightarrow> plugin" where
  "purgeCss defaultExtractor po =
     \<lparr> purgeOptions = po,
       viteConfig = None,
       selectors = [],
       standard =
         [Str ''*'', Str ''html'', Str ''body'', Rx ''aria-current'', Rx ''svelte-'',
          Rx (''^'' @ [char_of (92 :: nat)] @ '':[-a-z]+$'')]
         @ nullish (user_standard po) [],
       extractor = nullish (user_extractor po) defaultExtractor,
       moduleIds = [] \<rparr>"

text \<open>The hooks \<^verbatim>\<open>load\<close> and \<^verbatim>\<open>configResolved\<close>.\<close>

definition load :: "string \<Rightarrow> plugin \<Rightarrow> plugin" where
  "load id' st = (if EXT_CSS id' then st else st\<lparr>moduleIds := set_add id' (moduleIds st)\<rparr>)"

definition configResolved :: "string \<Rightarrow> plugin \<Rightarrow> plugin" where
  "configResolved root st = st\<lparr>viteConfig := Some root\<rparr>"

text \<open>The visitor's \<^verbatim>\<open>enter\<close>: three tests on the node's type, each feeding one text to
  the extractor and adding every token it returns to \<^verbatim>\<open>selectors\<close>.\<close>

fun enter :: "(string \<Rightarrow> string list) \<Rightarrow> node_kind \<Rightarrow> string list \<Rightarrow> string list" where
  "enter ex (Literal (VString v)) sel = fold set_add (ex v) sel"
| "enter ex (Literal _) sel = sel"
| "enter ex (Identifier n) sel = fold set_add (ex n) sel"
| "enter ex (TemplateElement cooked raw') sel = fold set_add (ex (nullish cooked raw')) sel"
| "enter ex (OtherNode _) sel = sel"

text \<open>\<^verbatim>\<open>walk(ast, { enter })\<close>: the node, then its children, left to right.\<close>

fun walk :: "(string \<Rightarrow> string list) \<Rightarrow> node \<Rightarrow> string list \<Rightarrow> string list" where
  "walk ex (Node k cs) sel = fold (walk ex) cs (enter ex k sel)"

text \<open>The body of the first loop, for one module id: skip, fail in the parser, or walk.\<close>

definition scan_module ::
  "env \<Rightarrow> (string \<Rightarrow> string list) \<Rightarrow> string \<Rightarrow> string list \<Rightarrow> error + string list" where
  "scan_module e ex id' sel =
     (case getModuleInfo e id' of
        None \<Rightarrow> Inr sel
      | Some info \<Rightarrow>
          (if isIncluded info \<noteq> Some True then Inr sel
           else case code info of
                  None \<Rightarrow> Inr sel
                | Some c \<Rightarrow>
                    (case this_parse e c of
                       Inl err \<Rightarrow> Inl err
                     | Inr ast \<Rightarrow> Inr (walk ex ast sel))))"

fun scan_modules ::
  "env \<Rightarrow> (string \<Rightarrow> string list) \<Rightarrow> string list \<Rightarrow> string list \<Rightarrow> error + string list" where
  "scan_modules e ex [] sel = Inr sel"
| "scan_modules e ex (i # ids) sel =
     (case scan_module e ex i sel of
        Inl err \<Rightarrow> Inl err
      | Inr sel' \<Rightarrow> scan_modules e ex ids sel')"

text \<open>\<^verbatim>\<open>assets[fileName] = chunkOrAsset\<close> on a record kept as an association list: a key
  that is there keeps its place, a new key goes last (a key that ends in \<^verbatim>\<open>.css\<close> is no
  array index).\<close>

fun record_set :: "string \<Rightarrow> 'v \<Rightarrow> (string \<times> 'v) list \<Rightarrow> (string \<times> 'v) list" where
  "record_set k v [] = [(k, v)]"
| "record_set k v ((k', v') # r) =
     (if k' = k then (k, v) # r else (k', v') # record_set k v r)"

text \<open>The second loop: the entries that are assets under a \<^verbatim>\<open>.css\<close> key.\<close>

fun collect_assets :: "output_bundle \<Rightarrow> (string \<times> output_asset) list \<Rightarrow> (string \<times> output_asset) list" where
  "collect_assets [] assets = assets"
| "collect_assets ((k, Asset a) # b) assets =
     collect_assets b (if EXT_CSS k then record_set k a assets else assets)"
| "collect_assets ((k, Chunk c) # b) assets = collect_assets b assets"

text \<open>The third loop. The body of the \<^verbatim>\<open>try\<close> either throws or pushes; the empty
  \<^verbatim>\<open>catch\<close> drops the error and the loop goes on.\<close>

definition try_push :: "env \<Rightarrow> string \<Rightarrow> entry list \<Rightarrow> error + entry list" where
  "try_push e selector std =
     (case css_what_parse e selector of
        Inl err \<Rightarrow> Inl err
      | Inr _ \<Rightarrow>
          (case new_RegExp e selector of
             Inl err \<Rightarrow> Inl err
           | Inr _ \<Rightarrow> Inr (std @ [Str selector])))"

definition validate_step :: "env \<Rightarrow> string \<Rightarrow> entry list \<Rightarrow> entry list" where
  "validate_step e selector std =
     (case try_push e selector std of Inl err \<Rightarrow> std | Inr std' \<Rightarrow> std')"

definition validate_selectors :: "env \<Rightarrow> string list \<Rightarrow> entry list \<Rightarrow> entry list" where
  "validate_selectors e sels std = fold (validate_step e) sels std"

text \<open>The object literal of the engine call: the user's options spread first, then the
  five keys the plugin sets.\<close>

definition merged_safelist :: "purge_options option \<Rightarrow> entry list \<Rightarrow> complex_safelist" where
  "merged_safelist po std =
     (case user_safelist po of
        None \<Rightarrow>
          \<lparr> sl_standard = Some std, sl_deep = None,
            sl_greedy = Some (Rx ''svelte-'' # nullish (user_greedy po) []),
            sl_variables = None, sl_keyframes = None \<rparr>
      | Some s \<Rightarrow>
          s\<lparr> sl_standard := Some std,
             sl_greedy := Some (Rx ''svelte-'' # nullish (user_greedy po) []) \<rparr>)"

definition make_args ::
  "env \<Rightarrow> purge_options option \<Rightarrow> string \<Rightarrow> entry list \<Rightarrow> string \<Rightarrow> string \<Rightarrow> purge_args" where
  "make_args e po root std fileName' src =
     \<lparr> content = Glob (path_join e root ''**/*.html'') # nullish (user_content po) [],
       css = [\<lparr> raw = trim src, css_name = fileName' \<rparr>],
       rejected = True,
       rejectedCss = True,
       safelist = merged_safelist po std,
       arg_defaultExtractor = user_extractor po,
       arg_other = (case po of None \<Rightarrow> [] | Some p \<Rightarrow> opt_other p) \<rparr>"

text \<open>\<^verbatim>\<open>delete bundle[key]\<close>.\<close>

definition record_delete :: "string \<Rightarrow> (string \<times> 'v) list \<Rightarrow> (string \<times> 'v) list" where
  "record_delete k r = filter (\<lambda>kv. fst kv \<noteq> k) r"

text \<open>The body of the last loop for one \<^verbatim>\<open>[fileName, asset]\<close>, in its two halves. First
  the engine call: reading \<^verbatim>\<open>viteConfig.root\<close> before \<^verbatim>\<open>configResolved\<close> and calling
  \<^verbatim>\<open>trim\<close> on a \<^verbatim>\<open>Uint8Array\<close> throw a \<^verbatim>\<open>TypeError\<close>, and the engine may reject; otherwise
  the call yields its arguments and \<^verbatim>\<open>purgeCSSResult\<close>.\<close>

definition engine_call ::
  "env \<Rightarrow> plugin \<Rightarrow> string \<times> output_asset \<Rightarrow> error + purge_args \<times> result_purge list" where
  "engine_call e st fa =
     (case viteConfig st of
        None \<Rightarrow> Inl TypeError
      | Some root \<Rightarrow>
          (case source (snd fa) of
             Bytes _ \<Rightarrow> Inl TypeError
           | Text src \<Rightarrow>
               (let args = make_args e (purgeOptions st) root (standard st) (fst fa) src in
                case purge e args of
                  Inl err \<Rightarrow> Inl err
                | Inr purgeCSSResult \<Rightarrow> Inr (args, purgeCSSResult))))"

text \<open>Then \<^verbatim>\<open>if (purgeCSSResult[0])\<close>: delete the entry under \<^verbatim>\<open>asset.fileName\<close> and emit
  the asset with the purged text as its source. The call is logged either way.\<close>

definition replace_asset ::
  "output_asset \<Rightarrow> purge_args \<Rightarrow> result_purge list \<Rightarrow> outcome \<Rightarrow> outcome" where
  "replace_asset asset args purgeCSSResult out =
     (case purgeCSSResult of
        [] \<Rightarrow> out\<lparr>purge_calls := purge_calls out @ [args]\<rparr>
      | r # _ \<Rightarrow>
          \<lparr> out_bundle = record_delete (fileName asset) (out_bundle out),
            emitted = emitted out @ [asset\<lparr>source := Text (res_css r)\<rparr>],
            purge_calls = purge_calls out @ [args] \<rparr>)"

definition purge_asset :: "env \<Rightarrow> plugin \<Rightarrow> string \<times> output_asset \<Rightarrow> outcome \<Rightarrow> error + outcome" where
  "purge_asset e st fa out =
     (case engine_call e st fa of
        Inl err \<Rightarrow> Inl err
      | Inr (args, purgeCSSResult) \<Rightarrow> Inr (replace_asset (snd fa) args purgeCSSResult out))"

fun purge_assets ::
  "env \<Rightarrow> plugin \<Rightarrow> (string \<times> output_asset) list \<Rightarrow> outcome \<Rightarrow> error + outcome" where
  "purge_assets e st [] out = Inr out"
| "purge_assets e st (fa # fas) out =
     (case purge_asset e st fa out of
        Inl err \<Rightarrow> Inl err
      | Inr out' \<Rightarrow> purge_assets e st fas out')"

text \<open>\<^verbatim>\<open>generateBundle(options, bundle)\<close>: the four loops in sequence. It returns the
  closure as the hook leaves it and the outcome, or the error that aborted the hook.\<close>

definition generateBundle :: "env \<Rightarrow> plugin \<Rightarrow> output_bundle \<Rightarrow> error + plugin \<times> outcome" where
  "generateBundle e st bundle =
     (case scan_modules e (extractor st) (moduleIds st) (selectors st) of
        Inl err \<Rightarrow> Inl err
      | Inr sel \<Rightarrow>
          (let assets = collect_assets bundle [];
               st' = st\<lparr> selectors := sel,
                         standard := validate_selectors e sel (standard st) \<rparr>
           in case purge_assets e st' assets
                     \<lparr> out_bundle = bundle, emitted = [], purge_calls = [] \<rparr> of
                Inl err \<Rightarrow> Inl err
              | Inr out \<Rightarrow> Inr (st', out)))"

subsection \<open>Vocabulary of the specification\<close>

text \<open>A token is admitted when css-what parses it and \<^verbatim>\<open>new RegExp\<close> compiles it.\<close>

definition admitted :: "env \<Rightarrow> string \<Rightarrow> bool" where
  "admitted e t = (css_what_parse e t = Inr () \<and> new_RegExp e t = Inr ())"

text \<open>A tracked module is skipped when the host has no record of it, when its inclusion
  status is not \<^verbatim>\<open>true\<close>, or when its code is \<^verbatim>\<open>null\<close>.\<close>

definition skipped :: "env \<Rightarrow> string \<Rightarrow> bool" where
  "skipped e i =
     (case getModuleInfo e i of
        None \<Rightarrow> True
      | Some info \<Rightarrow> isIncluded info \<noteq> Some True \<or> code info = None)"

text \<open>The candidate text of a node, in the specification's words: the value of a string
  literal, the name of an identifier, the cooked text of a template segment or else its
  raw text; nothing for any other node. The texts of a tree are those of its nodes, a
  node before its children.\<close>

fun node_text :: "node_kind \<Rightarrow> string option" where
  "node_text (Literal (VString v)) = Some v"
| "node_text (Literal _) = None"
| "node_text (Identifier n) = Some n"
| "node_text (TemplateElement cooked raw') = Some (case cooked of Some c \<Rightarrow> c | None \<Rightarrow> raw')"
| "node_text (OtherNode _) = None"

fun tree_texts :: "node \<Rightarrow> string list" where
  "tree_texts (Node k cs) =
     (case node_text k of None \<Rightarrow> [] | Some t \<Rightarrow> [t]) @ concat (map tree_texts cs)"

text \<open>The CSS assets of a bundle: its assets under a key that ends in \<^verbatim>\<open>.css\<close>.\<close>

definition is_css_asset :: "string \<times> chunk_or_asset \<Rightarrow> bool" where
  "is_css_asset kv = (case snd kv of Asset a \<Rightarrow> EXT_CSS (fst kv) | Chunk c \<Rightarrow> False)"

fun css_assets :: "output_bundle \<Rightarrow> (string \<times> output_asset) list" where
  "css_assets [] = []"
| "css_assets ((k, Asset a) # b) = (if EXT_CSS k then (k, a) # css_assets b else css_assets b)"
| "css_assets ((k, Chunk c) # b) = css_assets b"

text \<open>The host's contract on a bundle: it is an object, so no key occurs twice, and every
  entry is stored under its own file name.\<close>

definition entry_fileName :: "chunk_or_asset \<Rightarrow> string" where
  "entry_fileName v = (case v of Asset a \<Rightarrow> fileName a | Chunk c \<Rightarrow> chunk_fileName c)"

definition bundle_wf :: "output_bundle \<Rightarrow> bool" where
  "bundle_wf b = (distinct (map fst b) \<and> map (\<lambda>kv. entry_fileName (snd kv)) b = map fst b)"

text \<open>\<^verbatim>\<open>purgeCSSResult[0]\<close> for one asset, when the call returns and the list is not empty;
  the keys the last loop deletes; and the asset it emits for one entry.\<close>

definition first_result :: "env \<Rightarrow> plugin \<Rightarrow> string \<times> output_asset \<Rightarrow> result_purge option" where
  "first_result e st fa =
     (case engine_call e st fa of
        Inl _ \<Rightarrow> None
      | Inr (args, res) \<Rightarrow> (case res of [] \<Rightarrow> None | r # _ \<Rightarrow> Some r))"

definition deleted :: "env \<Rightarrow> plugin \<Rightarrow> (string \<times> output_asset) list \<Rightarrow> string set" where
  "deleted e st fas = (\<lambda>fa. fileName (snd fa)) ` {fa \<in> set fas. first_result e st fa \<noteq> None}"

definition emit_of :: "env \<Rightarrow> plugin \<Rightarrow> string \<times> output_asset \<Rightarrow> output_asset list" where
  "emit_of e st fa =
     (case first_result e st fa of
        None \<Rightarrow> []
      | Some r \<Rightarrow> [(snd fa)\<lparr>source := Text (res_css r)\<rparr>])"

subsection \<open>A build, worked through\<close>

text \<open>One module that survives with a string literal, an identifier that is no selector,
  a template segment without cooked text and a number; one module dropped by tree
  shaking, whose code the parser would reject; a bundle of a chunk, two style sheets of
  which the engine answers for the first only, and an image.\<close>

definition ex_extractor :: "string \<Rightarrow> string list" where
  "ex_extractor s = (if s = ''btn btn-primary'' then [''btn'', ''btn-primary''] else [s])"

definition ex_ast :: node where
  "ex_ast =
     Node (OtherNode ''Program'')
       [Node (Literal (VString ''btn btn-primary'')) [],
        Node (OtherNode ''CallExpression'')
          [Node (Identifier ''x('') [], Node (Literal (VNumber 3)) []],
        Node (TemplateElement None ''item-'') [],
        Node (Identifier ''btn'') []]"

definition ex_env :: env where
  "ex_env =
     \<lparr> getModuleInfo = (\<lambda>i.
         if i = ''a.js'' then Some \<lparr>isIncluded = Some True, code = Some ''A''\<rparr>
         else if i = ''dead.js'' then Some \<lparr>isIncluded = Some False, code = Some ''D''\<rparr>
         else None),
       this_parse = (\<lambda>c. if c = ''A'' then Inr ex_ast else Inl (ParseError c)),
       css_what_parse = (\<lambda>t. if t = ''x('' then Inl SelectorSyntaxError else Inr ()),
       new_RegExp = (\<lambda>t. if t = ''x('' \<or> t = ''item-'' then Inl RegExpSyntaxError else Inr ()),
       path_join = (\<lambda>a b. a @ ''/'' @ b),
       purge = (\<lambda>args.
         if map css_name (css args) = [''keep.css''] then Inr []
         else Inr [\<lparr>res_css = ''.btn{}'', res_rejected = Some [''.unused''],
                    res_rejectedCss = Some ''.unused{}''\<rparr>]) \<rparr>"

definition ex_options :: purge_options where
  "ex_options =
     \<lparr> opt_content = Some [Glob ''src/**/*.svelte''],
       opt_defaultExtractor = Some ex_extractor,
       opt_safelist = Some
         \<lparr> sl_standard = Some [Str ''x('', Rx ''^my-''],
           sl_deep = Some [Rx ''deep''],
           sl_greedy = Some [Rx ''g(''],
           sl_variables = None,
           sl_keyframes = None \<rparr>,
       opt_rejected = Some False,
       opt_rejectedCss = None,
       opt_other = [(''fontFace'', ''true'')] \<rparr>"

definition ex_plugin :: plugin where
  "ex_plugin =
     load ''dead.js'' (load ''a.js'' (load ''app.css''
       (configResolved ''/proj'' (purgeCss (\<lambda>s. []) (Some ex_options)))))"

definition ex_app :: output_asset where
  "ex_app = \<lparr> fileName = ''app.css'', asset_name = Some ''app'', needsCodeReference = False,
              source = Text '' .btn{} .unused{} '' \<rparr>"

definition ex_keep :: output_asset where
  "ex_keep = \<lparr> fileName = ''keep.css'', asset_name = None, needsCodeReference = False,
               source = Text ''.k{}'' \<rparr>"

definition ex_logo :: output_asset where
  "ex_logo = \<lparr> fileName = ''logo.png'', asset_name = None, needsCodeReference = True,
               source = Bytes [137, 80] \<rparr>"

definition ex_main :: output_chunk where
  "ex_main = \<lparr> chunk_fileName = ''main.js'', chunk_code = ''x()'' \<rparr>"

definition ex_bundle :: output_bundle where
  "ex_bundle =
     [(''main.js'', Chunk ex_main), (''app.css'', Asset ex_app),
      (''keep.css'', Asset ex_keep), (''logo.png'', Asset ex_logo)]"

text \<open>The baseline and the user's two entries, then what the first and the second run
  append.\<close>

definition ex_standard0 :: "entry list" where
  "ex_standard0 =
     [Str ''*'', Str ''html'', Str ''body'', Rx ''aria-current'', Rx ''svelte-'',
      Rx (''^'' @ [char_of (92 :: nat)] @ '':[-a-z]+$''), Str ''x('', Rx ''^my-'']"

definition ex_selectors :: "string list" where
  "ex_selectors = [''btn'', ''btn-primary'', ''x('', ''item-'']"

definition ex_plugin1 :: plugin where
  "ex_plugin1 =
     ex_plugin\<lparr> selectors := ex_selectors,
                standard := ex_standard0 @ [Str ''btn'', Str ''btn-primary''] \<rparr>"

definition ex_plugin2 :: plugin where
  "ex_plugin2 =
     ex_plugin\<lparr> selectors := ex_selectors,
                standard := ex_standard0 @ [Str ''btn'', Str ''btn-primary'',
                                            Str ''btn'', Str ''btn-primary''] \<rparr>"

definition ex_args :: "entry list \<Rightarrow> string \<Rightarrow> string \<Rightarrow> purge_args" where
  "ex_args std name src =
     \<lparr> content = [Glob ''/proj/**/*.html'', Glob ''src/**/*.svelte''],
       css = [\<lparr> raw = src, css_name = name \<rparr>],
       rejected = True,
       rejectedCss = True,
       safelist =
         \<lparr> sl_standard = Some std,
           sl_deep = Some [Rx ''deep''],
           sl_greedy = Some [Rx ''svelte-'', Rx ''g(''],
           sl_variables = None,
           sl_keyframes = None \<rparr>,
       arg_defaultExtractor = Some ex_extractor,
       arg_other = [(''fontFace'', ''true'')] \<rparr>"

definition ex_outcome :: "entry list \<Rightarrow> outcome" where
  "ex_outcome std =
     \<lparr> out_bundle =
         [(''main.js'', Chunk ex_main), (''keep.css'', Asset ex_keep),
          (''logo.png'', Asset ex_logo)],
       emitted = [ex_app\<lparr>source := Text ''.btn{}''\<rparr>],
       purge_calls = [ex_args std ''app.css'' ''.btn{} .unused{}'', ex_args std ''keep.css'' ''.k{}''] \<rparr>"

text \<open>The tokens the scan of a tracked module's code yields: the extractor's tokens of the
  texts of its tree. They are what a module adds when it is not skipped.\<close>

definition module_tokens :: "env \<Rightarrow> (string \<Rightarrow> string list) \<Rightarrow> string \<Rightarrow> string list" where
  "module_tokens e ex i =
     (case getModuleInfo e i of
        None \<Rightarrow> []
      | Some info \<Rightarrow>
          (case code info of
             None \<Rightarrow> []
           | Some c \<Rightarrow>
               (case this_parse e c of
                  Inl err \<Rightarrow> []
                | Inr ast \<Rightarrow> concat (map ex (tree_texts ast)))))"

definition pass_tokens :: "env \<Rightarrow> (string \<Rightarrow> string list) \<Rightarrow> string list \<Rightarrow> string list" where
  "pass_tokens e ex ids =
     concat (map (\<lambda>i. if skipped e i then [] else module_tokens e ex i) ids)"

text \<open>A rebuild in watch mode on the same plugin: in the first build the second module is
  included and holds a literal of its own; before the second build tree shaking drops
  it. Everything else is as in the build above.\<close>

definition ex_dead_ast :: node where
  "ex_dead_ast = Node (OtherNode ''Program'') [Node (Literal (VString ''only-dead'')) []]"

definition ex_env_watch1 :: env where
  "ex_env_watch1 =
     ex_env\<lparr> getModuleInfo := (\<lambda>i.
                 if i = ''a.js'' then Some \<lparr>isIncluded = Some True, code = Some ''A''\<rparr>
                 else if i = ''dead.js'' then Some \<lparr>isIncluded = Some True, code = Some ''D''\<rparr>
                 else None),
             this_parse := (\<lambda>c.
                 if c = ''A'' then Inr ex_ast
                 else if c = ''D'' then Inr ex_dead_ast
                 else Inl (ParseError c)) \<rparr>"

definition ex_env_watch2 :: env where
  "ex_env_watch2 =
     ex_env_watch1\<lparr> getModuleInfo := (\<lambda>i.
                 if i = ''a.js'' then Some \<lparr>isIncluded = Some True, code = Some ''A''\<rparr>
                 else if i = ''dead.js'' then Some \<lparr>isIncluded = Some False, code = Some ''D''\<rparr>
                 else None) \<rparr>"




section \<open>Facts about the operations\<close>

subsection \<open>The candidate set\<close>


lemma set_set_add: "set (set_add x s) = insert x (set s)"
  by (auto simp: set_add_def)

lemma prefix_set_add: "prefix s (set_add x s)"
  by (simp add: set_add_def)

lemma distinct_set_add: "distinct s \<Longrightarrow> distinct (set_add x s)"
  by (simp add: set_add_def)

lemma set_fold_set_add: "set (fold set_add xs s) = set s \<union> set xs"
  by (induction xs arbitrary: s) (auto simp: set_set_add)

lemma prefix_fold_set_add: "prefix s (fold set_add xs s)"
proof (induction xs arbitrary: s)
  case Nil
  show ?case by simp
next
  case (Cons x xs)
  have "prefix s (set_add x s)" by (rule prefix_set_add)
  also have "prefix (set_add x s) (fold set_add xs (set_add x s))" by (rule Cons.IH)
  finally show ?case by simp
qed

lemma distinct_fold_set_add: "distinct s \<Longrightarrow> distinct (fold set_add xs s)"
  by (induction xs arbitrary: s) (auto simp: distinct_set_add)

lemma enter_node_text:
  "enter ex k sel = (case node_text k of None \<Rightarrow> sel | Some t \<Rightarrow> fold set_add (ex t) sel)"
  by (cases "(ex, k, sel)" rule: enter.cases) (simp_all add: nullish_def)

lemma walk_tree_texts:
  "walk ex ast sel = fold set_add (concat (map ex (tree_texts ast))) sel"
proof (induction ast arbitrary: sel)
  case (Node k cs)
  have kids: "fold (walk ex) cs s = fold set_add (concat (map ex (concat (map tree_texts cs)))) s" for s
    using Node.IH
  proof (induction cs arbitrary: s)
    case Nil
    show ?case by simp
  next
    case (Cons c cs)
    then show ?case by simp
  qed
  show ?case
    by (cases "node_text k") (simp_all add: kids enter_node_text)
qed

lemma prefix_walk: "prefix sel (walk ex ast sel)"
  by (simp add: walk_tree_texts prefix_fold_set_add)

lemma distinct_walk: "distinct sel \<Longrightarrow> distinct (walk ex ast sel)"
  by (simp add: walk_tree_texts distinct_fold_set_add)


lemma prefix_scan_module: "scan_module e ex i sel = Inr sel' \<Longrightarrow> prefix sel sel'"
  by (auto simp: scan_module_def prefix_walk split: option.splits if_splits sum.splits)

lemma prefix_scan_modules: "scan_modules e ex ids sel = Inr sel' \<Longrightarrow> prefix sel sel'"
proof (induction ids arbitrary: sel)
  case Nil
  then show ?case by simp
next
  case (Cons i ids)
  then obtain s where s: "scan_module e ex i sel = Inr s" and r: "scan_modules e ex ids s = Inr sel'"
    by (auto split: sum.splits)
  from prefix_scan_module [OF s] Cons.IH [OF r] show ?case by (rule prefix_order.trans)
qed


lemma validate_step_admitted:
  "validate_step e t std = (if admitted e t then std @ [Str t] else std)"
  by (auto simp: validate_step_def try_push_def admitted_def split: sum.splits)

lemma validate_selectors_filter:
  "validate_selectors e sels std = std @ map Str (filter (admitted e) sels)"
  unfolding validate_selectors_def
  by (induction sels arbitrary: std) (simp_all add: validate_step_admitted)

subsection \<open>The assets\<close>


lemma set_css_assets: "set (css_assets b) = {(k, a). (k, Asset a) \<in> set b \<and> EXT_CSS k}"
  by (induction b rule: css_assets.induct) auto

lemma record_set_fresh: "k \<notin> fst ` set r \<Longrightarrow> record_set k v r = r @ [(k, v)]"
  by (induction r) auto

lemma collect_assets_css_assets:
  "distinct (map fst b) \<Longrightarrow> fst ` set acc \<inter> fst ` set b = {} \<Longrightarrow>
   collect_assets b acc = acc @ css_assets b"
proof (induction b acc rule: collect_assets.induct)
  case (1 assets)
  show ?case by simp
next
  case (2 k a b assets)
  have fresh: "k \<notin> fst ` set assets" using "2.prems"(2) by auto
  have d: "distinct (map fst b)" using "2.prems"(1) by simp
  have kb: "k \<notin> fst ` set b" using "2.prems"(1) by (simp add: image_iff) 
  have disj: "fst ` set (if EXT_CSS k then record_set k a assets else assets) \<inter> fst ` set b = {}"
    using "2.prems"(2) kb by (auto simp: record_set_fresh [OF fresh])
  show ?case
    using "2.IH" [OF d disj] by (simp add: record_set_fresh [OF fresh])
next
  case (3 k c b assets)
  then show ?case by auto
qed

lemma collect_assets_distinct:
  "distinct (map fst b) \<Longrightarrow> collect_assets b [] = css_assets b"
  using collect_assets_css_assets [of b "[]"] by simp

lemma purge_asset_InrD:
  "purge_asset e st fa out0 = Inr out \<Longrightarrow>
   \<exists>args res. engine_call e st fa = Inr (args, res) \<and> out = replace_asset (snd fa) args res out0"
  by (auto simp: purge_asset_def split: sum.splits)

lemma purge_assets_ConsD:
  "purge_assets e st (fa # fas) out0 = Inr out \<Longrightarrow>
   \<exists>args res. engine_call e st fa = Inr (args, res) \<and>
     purge_assets e st fas (replace_asset (snd fa) args res out0) = Inr out"
  by (auto split: sum.splits dest: purge_asset_InrD)

lemma purge_calls_replace [simp]:
  "purge_calls (replace_asset a args res out) = purge_calls out @ [args]"
  by (simp add: replace_asset_def split: list.splits)

lemma out_bundle_replace:
  "out_bundle (replace_asset a args res out) =
     (if res = [] then out_bundle out else record_delete (fileName a) (out_bundle out))"
  by (simp add: replace_asset_def split: list.splits)

lemma emitted_replace:
  "emitted (replace_asset a args res out) =
     emitted out @ (case res of [] \<Rightarrow> [] | r # _ \<Rightarrow> [a\<lparr>source := Text (res_css r)\<rparr>])"
  by (simp add: replace_asset_def split: list.splits)

lemma purge_assets_calls:
  "purge_assets e st fas out0 = Inr out \<Longrightarrow>
   \<exists>cs. purge_calls out = purge_calls out0 @ cs \<and>
     list_all2 (\<lambda>fa args. \<exists>res. engine_call e st fa = Inr (args, res)) fas cs"
proof (induction fas arbitrary: out0)
  case Nil
  then show ?case by simp
next
  case (Cons fa fas)
  from purge_assets_ConsD [OF Cons.prems] obtain args res where
    c: "engine_call e st fa = Inr (args, res)" and
    r: "purge_assets e st fas (replace_asset (snd fa) args res out0) = Inr out"
    by blast
  from Cons.IH [OF r] obtain cs where
    cs: "purge_calls out = (purge_calls out0 @ [args]) @ cs"
      "list_all2 (\<lambda>fa args. \<exists>res. engine_call e st fa = Inr (args, res)) fas cs"
    by auto
  have "list_all2 (\<lambda>fa args. \<exists>res. engine_call e st fa = Inr (args, res)) (fa # fas) (args # cs)"
    using c cs(2) by simp
  with cs(1) show ?case by (intro exI [of _ "args # cs"]) simp
qed

lemma purge_assets_bundle:
  "purge_assets e st fas out0 = Inr out \<Longrightarrow>
   out_bundle out = filter (\<lambda>kv. fst kv \<notin> deleted e st fas) (out_bundle out0)"
proof (induction fas arbitrary: out0)
  case Nil
  then show ?case by (simp add: deleted_def)
next
  case (Cons fa fas)
  from purge_assets_ConsD [OF Cons.prems] obtain args res where
    c: "engine_call e st fa = Inr (args, res)" and
    r: "purge_assets e st fas (replace_asset (snd fa) args res out0) = Inr out"
    by blast
  have f: "(first_result e st fa \<noteq> None) = (res \<noteq> [])"
    using c by (cases res) (simp_all add: first_result_def)
  have d: "deleted e st (fa # fas) = (if res = [] then {} else {fileName (snd fa)}) \<union> deleted e st fas"
    unfolding deleted_def using f by auto
  show ?case
    unfolding Cons.IH [OF r] d
    by (auto simp: out_bundle_replace record_delete_def intro: filter_cong)
qed

lemma purge_assets_emitted:
  "purge_assets e st fas out0 = Inr out \<Longrightarrow>
   emitted out = emitted out0 @ concat (map (emit_of e st) fas)"
proof (induction fas arbitrary: out0)
  case Nil
  then show ?case by simp
next
  case (Cons fa fas)
  from purge_assets_ConsD [OF Cons.prems] obtain args res where
    c: "engine_call e st fa = Inr (args, res)" and
    r: "purge_assets e st fas (replace_asset (snd fa) args res out0) = Inr out"
    by blast
  have "emit_of e st fa = (case res of [] \<Rightarrow> [] | r # _ \<Rightarrow> [(snd fa)\<lparr>source := Text (res_css r)\<rparr>])"
    using c by (cases res) (simp_all add: emit_of_def first_result_def)
  then show ?case
    unfolding Cons.IH [OF r] by (simp add: emitted_replace)
qed

lemma generateBundle_InrD:
  assumes "generateBundle e st b = Inr (st', out)"
  shows "\<exists>sel. scan_modules e (extractor st) (moduleIds st) (selectors st) = Inr sel \<and>
           st' = st\<lparr>selectors := sel, standard := validate_selectors e sel (standard st)\<rparr> \<and>
           purge_assets e st' (collect_assets b [])
             \<lparr>out_bundle = b, emitted = [], purge_calls = []\<rparr> = Inr out"
  using assms by (auto simp: generateBundle_def Let_def split: sum.splits)

subsection \<open>The worked build\<close>


lemma ex_plugin_eq:
  "ex_plugin = \<lparr> purgeOptions = Some ex_options, viteConfig = Some ''/proj'', selectors = [],
     standard = ex_standard0, extractor = ex_extractor, moduleIds = [''a.js'', ''dead.js''] \<rparr>"
  by (simp add: ex_plugin_def load_def configResolved_def purgeCss_def EXT_CSS_def set_add_def
      nullish_def user_standard_def user_safelist_def user_extractor_def ex_options_def ex_standard0_def)

lemma ex_scan:
  "scan_modules ex_env ex_extractor [''a.js'', ''dead.js''] [] = Inr ex_selectors"
  by (simp add: scan_module_def ex_env_def ex_ast_def ex_extractor_def set_add_def nullish_def ex_selectors_def)

lemma ex_scan2:
  "scan_modules ex_env ex_extractor [''a.js'', ''dead.js''] ex_selectors = Inr ex_selectors"
  by (simp add: scan_module_def ex_env_def ex_ast_def ex_extractor_def set_add_def nullish_def ex_selectors_def)

lemma ex_validate:
  "validate_selectors ex_env ex_selectors std = std @ [Str ''btn'', Str ''btn-primary'']"
  by (simp add: validate_selectors_def validate_step_def try_push_def ex_env_def ex_selectors_def)

lemma ex_collect: "collect_assets ex_bundle [] = [(''app.css'', ex_app), (''keep.css'', ex_keep)]"
  by (simp add: ex_bundle_def EXT_CSS_def)

lemma ex_trim: "trim '' .btn{} .unused{} '' = ''.btn{} .unused{}''" "trim ''.k{}'' = ''.k{}''"
  by (simp_all add: trim_def is_white_space_def)

lemma ex_engine:
  "viteConfig st = Some ''/proj'' \<Longrightarrow> purgeOptions st = Some ex_options \<Longrightarrow>
   engine_call ex_env st (''app.css'', ex_app) =
     Inr (ex_args (standard st) ''app.css'' ''.btn{} .unused{}'',
          [\<lparr>res_css = ''.btn{}'', res_rejected = Some [''.unused''], res_rejectedCss = Some ''.unused{}''\<rparr>])"
  "viteConfig st = Some ''/proj'' \<Longrightarrow> purgeOptions st = Some ex_options \<Longrightarrow>
   engine_call ex_env st (''keep.css'', ex_keep) = Inr (ex_args (standard st) ''keep.css'' ''.k{}'', [])"
  by (simp_all add: engine_call_def make_args_def merged_safelist_def user_safelist_def
      user_greedy_def user_content_def user_extractor_def nullish_def ex_options_def ex_app_def
      ex_keep_def ex_trim ex_env_def ex_args_def)

lemma ex_purge_assets:
  assumes "viteConfig st = Some ''/proj''" "purgeOptions st = Some ex_options"
  shows "purge_assets ex_env st [(''app.css'', ex_app), (''keep.css'', ex_keep)]
           \<lparr>out_bundle = ex_bundle, emitted = [], purge_calls = []\<rparr> = Inr (ex_outcome (standard st))"
proof -
  have "purge_asset ex_env st (''app.css'', ex_app)
          \<lparr>out_bundle = ex_bundle, emitted = [], purge_calls = []\<rparr> =
        Inr \<lparr>out_bundle = [(''main.js'', Chunk ex_main), (''keep.css'', Asset ex_keep),
                           (''logo.png'', Asset ex_logo)],
             emitted = [ex_app\<lparr>source := Text ''.btn{}''\<rparr>],
             purge_calls = [ex_args (standard st) ''app.css'' ''.btn{} .unused{}'']\<rparr>"
    unfolding purge_asset_def ex_engine [OF assms]
    by (simp add: replace_asset_def record_delete_def ex_bundle_def ex_app_def)
  moreover have "purge_asset ex_env st (''keep.css'', ex_keep)
          \<lparr>out_bundle = [(''main.js'', Chunk ex_main), (''keep.css'', Asset ex_keep),
                           (''logo.png'', Asset ex_logo)],
             emitted = [ex_app\<lparr>source := Text ''.btn{}''\<rparr>],
             purge_calls = [ex_args (standard st) ''app.css'' ''.btn{} .unused{}'']\<rparr> =
        Inr (ex_outcome (standard st))"
    unfolding purge_asset_def ex_engine [OF assms]
    by (simp add: replace_asset_def ex_outcome_def)
  ultimately show ?thesis by simp
qed

lemma ex_run_from:
  assumes "viteConfig st = Some ''/proj''" "purgeOptions st = Some ex_options"
    "extractor st = ex_extractor" "moduleIds st = [''a.js'', ''dead.js'']"
    "selectors st = [] \<or> selectors st = ex_selectors"
  shows "generateBundle ex_env st ex_bundle =
    Inr (st\<lparr>selectors := ex_selectors, standard := standard st @ [Str ''btn'', Str ''btn-primary'']\<rparr>,
         ex_outcome (standard st @ [Str ''btn'', Str ''btn-primary'']))"
proof -
  have s: "scan_modules ex_env (extractor st) (moduleIds st) (selectors st) = Inr ex_selectors"
    using assms ex_scan ex_scan2 by auto
  have p: "purge_assets ex_env
             (st\<lparr>selectors := ex_selectors, standard := standard st @ [Str ''btn'', Str ''btn-primary'']\<rparr>)
             [(''app.css'', ex_app), (''keep.css'', ex_keep)]
             \<lparr>out_bundle = ex_bundle, emitted = [], purge_calls = []\<rparr> =
           Inr (ex_outcome (standard st @ [Str ''btn'', Str ''btn-primary'']))"
    using ex_purge_assets [of "st\<lparr>selectors := ex_selectors,
      standard := standard st @ [Str ''btn'', Str ''btn-primary'']\<rparr>"] assms by simp
  show ?thesis
    by (simp add: generateBundle_def s ex_validate ex_collect p Let_def del: purge_assets.simps)
qed

lemma ex_run1: "generateBundle ex_env ex_plugin ex_bundle = Inr (ex_plugin1, ex_outcome (standard ex_plugin1))"
  using ex_run_from [of ex_plugin]
  by (simp add: ex_plugin_eq ex_plugin1_def)

lemma ex_run2: "generateBundle ex_env ex_plugin1 ex_bundle = Inr (ex_plugin2, ex_outcome (standard ex_plugin2))"
  using ex_run_from [of ex_plugin1]
  by (simp add: ex_plugin_eq ex_plugin1_def ex_plugin2_def)

subsection \<open>One run of the hook\<close>


lemma generateBundle_standard:
  "generateBundle e st b = Inr (st', out) \<Longrightarrow>
   standard st' = standard st @ map Str (filter (admitted e) (selectors st'))"
  by (auto dest!: generateBundle_InrD simp: validate_selectors_filter)

lemma generateBundle_selectors:
  "generateBundle e st b = Inr (st', out) \<Longrightarrow>
   scan_modules e (extractor st) (moduleIds st) (selectors st) = Inr (selectors st')"
  by (auto dest!: generateBundle_InrD)

lemma generateBundle_frame:
  "generateBundle e st b = Inr (st', out) \<Longrightarrow>
   purgeOptions st' = purgeOptions st \<and> viteConfig st' = viteConfig st \<and>
   extractor st' = extractor st \<and> moduleIds st' = moduleIds st"
  by (auto dest!: generateBundle_InrD)

lemma generateBundle_purge:
  "generateBundle e st b = Inr (st', out) \<Longrightarrow>
   purge_assets e st' (collect_assets b []) \<lparr>out_bundle = b, emitted = [], purge_calls = []\<rparr> = Inr out"
  by (auto dest!: generateBundle_InrD)

lemma purge_assets_total:
  "list_all (\<lambda>fa. \<not> isl (engine_call e st fa)) fas \<Longrightarrow> \<exists>out. purge_assets e st fas out0 = Inr out"
proof (induction fas arbitrary: out0)
  case Nil
  show ?case by simp
next
  case (Cons fa fas)
  then obtain args res where c: "engine_call e st fa = Inr (args, res)"
    by (cases "engine_call e st fa") auto
  from Cons obtain out where "purge_assets e st fas (replace_asset (snd fa) args res out0) = Inr out"
    by fastforce
  with c show ?case by (simp add: purge_asset_def)
qed

lemma ex_admitted: "filter (admitted ex_env) ex_selectors = [''btn'', ''btn-primary'']"
  by (simp add: admitted_def ex_env_def ex_selectors_def)

lemma ex_plugin1_eq:
  "ex_plugin\<lparr>selectors := ex_selectors,
     standard := standard ex_plugin @ map Str (filter (admitted ex_env) ex_selectors)\<rparr> = ex_plugin1"
  by (simp add: ex_admitted ex_plugin1_def ex_plugin_eq)

lemma ex_engine_ok:
  "list_all (\<lambda>fa. \<not> isl (engine_call ex_env ex_plugin1 fa)) (collect_assets ex_bundle [])"
  by (simp add: ex_collect ex_engine ex_plugin1_def ex_plugin_eq)

section \<open>The claims\<close>

text \<open>
  C1. Each token of the candidate set is pushed onto \<^verbatim>\<open>standard\<close> exactly when css-what
  parses it and \<^verbatim>\<open>new RegExp\<close> compiles it; otherwise the array is left as it was and
  the error goes no further. So a hook that returns has appended to \<^verbatim>\<open>standard\<close> the
  admitted tokens of \<^verbatim>\<open>selectors\<close>, in order; and the hook returns as soon as the module
  scan and every engine call do, whichever tokens fail the two checks.
\<close>

theorem token_pushed_iff_parsed_and_compiled:
  "validate_step e t std = (if admitted e t then std @ [Str t] else std)
   \<and> (generateBundle e st b = Inr (st', out) \<longrightarrow>
        standard st' = standard st @ map Str (filter (admitted e) (selectors st')))
   \<and> (scan_modules e (extractor st) (moduleIds st) (selectors st) = Inr sel \<and>
      list_all (\<lambda>fa. \<not> isl (engine_call e
          (st\<lparr>selectors := sel, standard := standard st @ map Str (filter (admitted e) sel)\<rparr>) fa))
        (collect_assets b []) \<longrightarrow>
      (\<exists>out. generateBundle e st b =
         Inr (st\<lparr>selectors := sel, standard := standard st @ map Str (filter (admitted e) sel)\<rparr>, out)))"
proof (intro conjI impI)
  show "validate_step e t std = (if admitted e t then std @ [Str t] else std)"
    by (rule validate_step_admitted)
next
  assume "generateBundle e st b = Inr (st', out)"
  then show "standard st' = standard st @ map Str (filter (admitted e) (selectors st'))"
    by (rule generateBundle_standard)
next
  let ?st = "st\<lparr>selectors := sel, standard := standard st @ map Str (filter (admitted e) sel)\<rparr>"
  assume a: "scan_modules e (extractor st) (moduleIds st) (selectors st) = Inr sel \<and>
      list_all (\<lambda>fa. \<not> isl (engine_call e ?st fa)) (collect_assets b [])"
  from purge_assets_total [of e ?st "collect_assets b []" "\<lparr>out_bundle = b, emitted = [], purge_calls = []\<rparr>"] a
  obtain out where "purge_assets e ?st (collect_assets b [])
      \<lparr>out_bundle = b, emitted = [], purge_calls = []\<rparr> = Inr out"
    by blast
  with a show "\<exists>out. generateBundle e st b = Inr (?st, out)"
    by (simp add: generateBundle_def validate_selectors_filter Let_def)
qed

theorem token_pushed_iff_parsed_and_compiled_witness:
  "validate_step ex_env ''x('' ex_standard0 = ex_standard0
   \<and> validate_step ex_env ''item-'' ex_standard0 = ex_standard0
   \<and> validate_step ex_env ''btn'' ex_standard0 = ex_standard0 @ [Str ''btn'']
   \<and> generateBundle ex_env ex_plugin ex_bundle = Inr (ex_plugin1, ex_outcome (standard ex_plugin1))
   \<and> selectors ex_plugin1 = [''btn'', ''btn-primary'', ''x('', ''item-'']
   \<and> standard ex_plugin1 = standard ex_plugin @ [Str ''btn'', Str ''btn-primary'']
   \<and> (\<exists>out. generateBundle ex_env ex_plugin ex_bundle = Inr (ex_plugin1, out))"
proof -
  note T = token_pushed_iff_parsed_and_compiled
  have a: "admitted ex_env ''btn''" "\<not> admitted ex_env ''x(''" "\<not> admitted ex_env ''item-''"
    by (simp_all add: admitted_def ex_env_def)
  have s: "scan_modules ex_env (extractor ex_plugin) (moduleIds ex_plugin) (selectors ex_plugin) = Inr ex_selectors"
    by (simp add: ex_plugin_eq ex_scan del: scan_modules.simps)
  have 1: "validate_step ex_env ''x('' ex_standard0 = ex_standard0"
    using T [of ex_env "''x(''" ex_standard0] a by simp
  have 2: "validate_step ex_env ''item-'' ex_standard0 = ex_standard0"
    using T [of ex_env "''item-''" ex_standard0] a by simp
  have 3: "validate_step ex_env ''btn'' ex_standard0 = ex_standard0 @ [Str ''btn'']"
    using T [of ex_env "''btn''" ex_standard0] a by simp
  have 4: "standard ex_plugin1 = standard ex_plugin @ [Str ''btn'', Str ''btn-primary'']"
    using T [of ex_env "''btn''" ex_standard0 ex_plugin ex_bundle ex_plugin1
        "ex_outcome (standard ex_plugin1)"] ex_run1
    by (simp add: ex_plugin1_def ex_admitted)
  have 5: "\<exists>out. generateBundle ex_env ex_plugin ex_bundle = Inr (ex_plugin1, out)"
    using T [of ex_env "''btn''" ex_standard0 ex_plugin ex_bundle ex_plugin1
        "ex_outcome (standard ex_plugin1)" ex_selectors] s ex_engine_ok
    by (simp add: ex_plugin1_eq)
  show ?thesis
    using 1 2 3 4 5 ex_run1 by (simp add: ex_plugin1_def ex_selectors_def)
qed

lemma engine_call_InrD:
  "engine_call e st fa = Inr (args, res) \<Longrightarrow>
   \<exists>root src. viteConfig st = Some root \<and> source (snd fa) = Text src \<and>
     args = make_args e (purgeOptions st) root (standard st) (fst fa) src \<and> purge e args = Inr res"
  by (auto simp: engine_call_def Let_def split: option.splits asset_source.splits sum.splits)

lemma list_all2_list_all_right:
  "list_all2 P xs ys \<Longrightarrow> (\<And>x y. P x y \<Longrightarrow> Q y) \<Longrightarrow> list_all Q ys"
  by (induction rule: list_all2_induct) auto

lemma generateBundle_calls:
  assumes "generateBundle e st b = Inr (st', out)"
  shows "list_all2 (\<lambda>fa args. \<exists>root src. viteConfig st = Some root \<and> source (snd fa) = Text src \<and>
           args = make_args e (purgeOptions st) root (standard st') (fst fa) src)
         (collect_assets b []) (purge_calls out)"
proof -
  from purge_assets_calls [OF generateBundle_purge [OF assms]]
  have "list_all2 (\<lambda>fa args. \<exists>res. engine_call e st' fa = Inr (args, res))
          (collect_assets b []) (purge_calls out)"
    by simp
  then show ?thesis
  proof (rule list_all2_mono)
    fix fa args
    assume "\<exists>res. engine_call e st' fa = Inr (args, res)"
    then show "\<exists>root src. viteConfig st = Some root \<and> source (snd fa) = Text src \<and>
           args = make_args e (purgeOptions st) root (standard st') (fst fa) src"
      using generateBundle_frame [OF assms] by (auto dest!: engine_call_InrD)
  qed
qed

lemma generateBundle_calls_standard:
  assumes "generateBundle e st b = Inr (st', out)"
  shows "list_all (\<lambda>args. safelist args = merged_safelist (purgeOptions st) (standard st'))
           (purge_calls out)"
  using generateBundle_calls [OF assms]
  by (rule list_all2_list_all_right) (auto simp: make_args_def)

lemma sl_standard_merged [simp]: "sl_standard (merged_safelist po std) = Some std"
  by (simp add: merged_safelist_def split: option.splits)

lemma sl_greedy_merged [simp]:
  "sl_greedy (merged_safelist po std) = Some (Rx ''svelte-'' # nullish (user_greedy po) [])"
  by (simp add: merged_safelist_def split: option.splits)

text \<open>
  C2. Whatever the user's options are (none at all, no safelist, an empty \<^verbatim>\<open>standard\<close>),
  the array \<^verbatim>\<open>standard\<close> of a new plugin is the six baseline entries followed by the user's
  entries; and after any run of the hook it is the baseline, the user's entries and the
  admitted discovered selectors, in this order, and this array is the \<^verbatim>\<open>standard\<close> safelist
  of every engine call of the run.
\<close>

theorem standard_baseline_then_user_then_discovered:
  "standard (purgeCss dx po) =
     [Str ''*'', Str ''html'', Str ''body'', Rx ''aria-current'', Rx ''svelte-'',
      Rx (''^'' @ [char_of (92 :: nat)] @ '':[-a-z]+$'')] @ nullish (user_standard po) []
   \<and> (purgeOptions st = po \<and> standard st = standard (purgeCss dx po) @ map Str ds \<and>
      generateBundle e st b = Inr (st', out) \<longrightarrow>
        standard st' =
          [Str ''*'', Str ''html'', Str ''body'', Rx ''aria-current'', Rx ''svelte-'',
           Rx (''^'' @ [char_of (92 :: nat)] @ '':[-a-z]+$'')]
          @ nullish (user_standard po) []
          @ map Str (ds @ filter (admitted e) (selectors st'))
        \<and> list_all (\<lambda>args. sl_standard (safelist args) = Some (standard st')) (purge_calls out))"
proof (intro conjI impI)
  show "standard (purgeCss dx po) =
     [Str ''*'', Str ''html'', Str ''body'', Rx ''aria-current'', Rx ''svelte-'',
      Rx (''^'' @ [char_of (92 :: nat)] @ '':[-a-z]+$'')] @ nullish (user_standard po) []"
    by (simp add: purgeCss_def)
next
  assume a: "purgeOptions st = po \<and> standard st = standard (purgeCss dx po) @ map Str ds \<and>
      generateBundle e st b = Inr (st', out)"
  then have run: "generateBundle e st b = Inr (st', out)" by simp
  from generateBundle_standard [OF run] a
  show "standard st' =
          [Str ''*'', Str ''html'', Str ''body'', Rx ''aria-current'', Rx ''svelte-'',
           Rx (''^'' @ [char_of (92 :: nat)] @ '':[-a-z]+$'')]
          @ nullish (user_standard po) []
          @ map Str (ds @ filter (admitted e) (selectors st'))"
    by (simp add: purgeCss_def)
  from generateBundle_calls_standard [OF run]
  show "list_all (\<lambda>args. sl_standard (safelist args) = Some (standard st')) (purge_calls out)"
    by (simp add: list_all_iff)
qed

lemma ex_user_standard: "nullish (user_standard (Some ex_options)) [] = [Str ''x('', Rx ''^my-'']"
  by (simp add: nullish_def user_standard_def user_safelist_def ex_options_def)

lemma ex_standard_fresh: "standard ex_plugin = standard (purgeCss dx (Some ex_options)) @ map Str []"
  by (simp add: ex_plugin_eq purgeCss_def ex_user_standard ex_standard0_def)

lemma ex_purgeOptions: "purgeOptions ex_plugin = Some ex_options"
  by (simp add: ex_plugin_eq)

theorem standard_baseline_then_user_then_discovered_witness:
  "standard (purgeCss (\<lambda>s. []) None) =
     [Str ''*'', Str ''html'', Str ''body'', Rx ''aria-current'', Rx ''svelte-'',
      Rx (''^'' @ [char_of (92 :: nat)] @ '':[-a-z]+$'')]
   \<and> standard (purgeCss (\<lambda>s. [])
        (Some \<lparr>opt_content = None, opt_defaultExtractor = None,
               opt_safelist = Some \<lparr>sl_standard = Some [], sl_deep = None, sl_greedy = None,
                                     sl_variables = None, sl_keyframes = None\<rparr>,
               opt_rejected = None, opt_rejectedCss = None, opt_other = []\<rparr>)) =
     [Str ''*'', Str ''html'', Str ''body'', Rx ''aria-current'', Rx ''svelte-'',
      Rx (''^'' @ [char_of (92 :: nat)] @ '':[-a-z]+$'')]
   \<and> generateBundle ex_env ex_plugin ex_bundle = Inr (ex_plugin1, ex_outcome (standard ex_plugin1))
   \<and> standard ex_plugin1 =
     [Str ''*'', Str ''html'', Str ''body'', Rx ''aria-current'', Rx ''svelte-'',
      Rx (''^'' @ [char_of (92 :: nat)] @ '':[-a-z]+$''),
      Str ''x('', Rx ''^my-'', Str ''btn'', Str ''btn-primary'']
   \<and> map (\<lambda>args. sl_standard (safelist args)) (purge_calls (ex_outcome (standard ex_plugin1))) =
     [Some (standard ex_plugin1), Some (standard ex_plugin1)]"
proof -
  note T = standard_baseline_then_user_then_discovered
  have 1: "standard (purgeCss (\<lambda>s. []) None) =
     [Str ''*'', Str ''html'', Str ''body'', Rx ''aria-current'', Rx ''svelte-'',
      Rx (''^'' @ [char_of (92 :: nat)] @ '':[-a-z]+$'')]"
    using T [of "\<lambda>s. []" None] by (simp add: nullish_def user_standard_def user_safelist_def)
  have 2: "standard (purgeCss (\<lambda>s. [])
        (Some \<lparr>opt_content = None, opt_defaultExtractor = None,
               opt_safelist = Some \<lparr>sl_standard = Some [], sl_deep = None, sl_greedy = None,
                                     sl_variables = None, sl_keyframes = None\<rparr>,
               opt_rejected = None, opt_rejectedCss = None, opt_other = []\<rparr>)) =
     [Str ''*'', Str ''html'', Str ''body'', Rx ''aria-current'', Rx ''svelte-'',
      Rx (''^'' @ [char_of (92 :: nat)] @ '':[-a-z]+$'')]"
    using T [of "\<lambda>s. []" "Some \<lparr>opt_content = None, opt_defaultExtractor = None,
               opt_safelist = Some \<lparr>sl_standard = Some [], sl_deep = None, sl_greedy = None,
                                     sl_variables = None, sl_keyframes = None\<rparr>,
               opt_rejected = None, opt_rejectedCss = None, opt_other = []\<rparr>"]
    by (simp add: nullish_def user_standard_def user_safelist_def)
  have 3: "standard ex_plugin1 =
     [Str ''*'', Str ''html'', Str ''body'', Rx ''aria-current'', Rx ''svelte-'',
      Rx (''^'' @ [char_of (92 :: nat)] @ '':[-a-z]+$'')]
     @ nullish (user_standard (Some ex_options)) []
     @ map Str ([] @ filter (admitted ex_env) (selectors ex_plugin1))
     \<and> list_all (\<lambda>args. sl_standard (safelist args) = Some (standard ex_plugin1))
         (purge_calls (ex_outcome (standard ex_plugin1)))"
    using T [of "\<lambda>s. []" "Some ex_options" ex_plugin "[]" ex_env ex_bundle ex_plugin1
        "ex_outcome (standard ex_plugin1)"] ex_run1 ex_purgeOptions ex_standard_fresh [of "\<lambda>s. []"]
    by blast
  have sel: "selectors ex_plugin1 = ex_selectors" by (simp add: ex_plugin1_def)
  from 3 have 4: "standard ex_plugin1 =
     [Str ''*'', Str ''html'', Str ''body'', Rx ''aria-current'', Rx ''svelte-'',
      Rx (''^'' @ [char_of (92 :: nat)] @ '':[-a-z]+$''),
      Str ''x('', Rx ''^my-'', Str ''btn'', Str ''btn-primary'']"
    by (simp add: ex_user_standard sel ex_admitted)
  from 3 [THEN conjunct2] have 5: "map (\<lambda>args. sl_standard (safelist args)) (purge_calls (ex_outcome (standard ex_plugin1))) =
     [Some (standard ex_plugin1), Some (standard ex_plugin1)]"
    by (simp add: ex_outcome_def)
  from 1 2 4 5 ex_run1 show ?thesis by blast
qed

text \<open>
  C4. As stated the claim fails for the set the code accumulates: \<^verbatim>\<open>selectors\<close> takes every
  token the extractor returns, checked or not. In the worked build it holds \<^verbatim>\<open>x(\<close>, which
  css-what rejects.
\<close>

theorem selectors_hold_unvalidated_tokens:
  "generateBundle ex_env ex_plugin ex_bundle = Inr (ex_plugin1, ex_outcome (standard ex_plugin1))
   \<and> ''x('' \<in> set (selectors ex_plugin1)
   \<and> css_what_parse ex_env ''x('' = Inl SelectorSyntaxError
   \<and> new_RegExp ex_env ''x('' = Inl RegExpSyntaxError
   \<and> \<not> list_all (admitted ex_env) (selectors ex_plugin1)"
  using ex_run1
  by (simp add: ex_plugin1_def ex_selectors_def ex_env_def admitted_def)

text \<open>
  C4, amended. What a run pushes onto \<^verbatim>\<open>standard\<close> is a token of \<^verbatim>\<open>selectors\<close> that css-what
  parses and \<^verbatim>\<open>new RegExp\<close> compiles; and both \<^verbatim>\<open>selectors\<close> and \<^verbatim>\<open>standard\<close> only grow:
  each walk, each validation loop and the whole run leave the old contents as a prefix
  of the new.
\<close>

theorem pushed_selectors_valid_and_growth_monotone:
  "prefix sel (walk ex ast sel)
   \<and> prefix std (validate_selectors e sels std)
   \<and> (generateBundle e st b = Inr (st', out) \<longrightarrow>
        prefix (selectors st) (selectors st') \<and> prefix (standard st) (standard st') \<and>
        list_all (\<lambda>x. case x of Str t \<Rightarrow> t \<in> set (selectors st') \<and> admitted e t | Rx r \<Rightarrow> False)
          (drop (length (standard st)) (standard st')))"
proof (intro conjI impI)
  show "prefix sel (walk ex ast sel)" by (rule prefix_walk)
  show "prefix std (validate_selectors e sels std)" by (simp add: validate_selectors_filter)
next
  assume run: "generateBundle e st b = Inr (st', out)"
  show "prefix (selectors st) (selectors st')"
    using generateBundle_selectors [OF run] by (rule prefix_scan_modules)
  show "prefix (standard st) (standard st')"
    by (simp add: generateBundle_standard [OF run])
  show "list_all (\<lambda>x. case x of Str t \<Rightarrow> t \<in> set (selectors st') \<and> admitted e t | Rx r \<Rightarrow> False)
          (drop (length (standard st)) (standard st'))"
    by (simp add: generateBundle_standard [OF run] list_all_iff)
qed

theorem pushed_selectors_valid_and_growth_monotone_witness:
  "generateBundle ex_env ex_plugin ex_bundle = Inr (ex_plugin1, ex_outcome (standard ex_plugin1))
   \<and> selectors ex_plugin = [] \<and> selectors ex_plugin1 = [''btn'', ''btn-primary'', ''x('', ''item-'']
   \<and> prefix (standard ex_plugin) (standard ex_plugin1)
   \<and> drop (length (standard ex_plugin)) (standard ex_plugin1) = [Str ''btn'', Str ''btn-primary'']
   \<and> admitted ex_env ''btn'' \<and> admitted ex_env ''btn-primary''"
proof -
  have d: "drop (length (standard ex_plugin)) (standard ex_plugin1) = [Str ''btn'', Str ''btn-primary'']"
    by (simp add: ex_plugin1_def ex_plugin_eq)
  have "prefix (selectors ex_plugin) (selectors ex_plugin1) \<and>
        prefix (standard ex_plugin) (standard ex_plugin1) \<and>
        list_all (\<lambda>x. case x of Str t \<Rightarrow> t \<in> set (selectors ex_plugin1) \<and> admitted ex_env t | Rx r \<Rightarrow> False)
          (drop (length (standard ex_plugin)) (standard ex_plugin1))"
    using pushed_selectors_valid_and_growth_monotone
      [of "[]" "\<lambda>s. []" ex_ast "[]" ex_env "[]" ex_plugin ex_bundle ex_plugin1
          "ex_outcome (standard ex_plugin1)"] ex_run1
    by blast
  then show ?thesis
    using ex_run1 unfolding d by (simp add: ex_plugin_eq ex_plugin1_def ex_selectors_def)
qed

lemma ex_skipped: "skipped ex_env ''dead.js''" "skipped ex_env ''gone.js''" "\<not> skipped ex_env ''a.js''"
  by (simp_all add: skipped_def ex_env_def)


lemma list_all2_left_ex:
  "list_all2 P xs ys \<Longrightarrow> x \<in> set xs \<Longrightarrow> \<exists>y. P x y"
  by (induction rule: list_all2_induct) auto

lemma list_all2_right_ex:
  "list_all2 P xs ys \<Longrightarrow> y \<in> set ys \<Longrightarrow> \<exists>x \<in> set xs. P x y"
  by (induction rule: list_all2_induct) auto

lemma bundle_wf_distinct: "bundle_wf b \<Longrightarrow> distinct (map fst b)"
  by (simp add: bundle_wf_def)

lemma bundle_wf_fileName: "bundle_wf b \<Longrightarrow> (k, Asset a) \<in> set b \<Longrightarrow> fileName a = k"
proof -
  assume wf: "bundle_wf b" and mem: "(k, Asset a) \<in> set b"
  from wf have "map (\<lambda>kv. entry_fileName (snd kv)) b = map fst b" by (simp add: bundle_wf_def)
  then have "\<forall>kv \<in> set b. entry_fileName (snd kv) = fst kv" by (simp add: map_eq_conv)
  with mem show ?thesis by (fastforce simp: entry_fileName_def)
qed

lemma generateBundle_wf:
  assumes run: "generateBundle e st b = Inr (st', out)" and wf: "bundle_wf b"
  shows "purge_assets e st' (css_assets b) \<lparr>out_bundle = b, emitted = [], purge_calls = []\<rparr> = Inr out"
  using generateBundle_purge [OF run] collect_assets_distinct [OF bundle_wf_distinct [OF wf]]
  by simp

lemma deleted_css_keys:
  assumes wf: "bundle_wf b" and d: "k \<in> deleted e st (css_assets b)"
  shows "\<exists>a. (k, Asset a) \<in> set b \<and> EXT_CSS k \<and> first_result e st (k, a) \<noteq> None"
proof -
  from d obtain k' a' where fa: "(k', a') \<in> set (css_assets b)"
    and r: "first_result e st (k', a') \<noteq> None" and k: "k = fileName a'"
    by (auto simp: deleted_def)
  from fa have m: "(k', Asset a') \<in> set b" and c: "EXT_CSS k'" by (simp_all add: set_css_assets)
  from bundle_wf_fileName [OF wf m] k have "k' = k" by simp
  with m c r show ?thesis by blast
qed

text \<open>
  C3. In a bundle as the host builds it, take a CSS asset and a run of the hook that
  returns. The engine was called for the asset. If it answered with a result, no entry
  is left under the asset's file name and the asset, with the purged text as its source
  and everything else as it was, has been emitted; if it answered with none, the entry
  is still in the bundle as it was. Nothing else is emitted.
\<close>

theorem css_asset_replaced_when_engine_answers:
  assumes run: "generateBundle e st b = Inr (st', out)"
    and wf: "bundle_wf b"
    and mem: "(k, Asset a) \<in> set b"
    and ext: "EXT_CSS k"
  shows "(\<exists>args res. engine_call e st' (k, a) = Inr (args, res) \<and>
           (case res of
              [] \<Rightarrow> (k, Asset a) \<in> set (out_bundle out)
            | r # _ \<Rightarrow> k \<notin> fst ` set (out_bundle out) \<and>
                       a\<lparr>source := Text (res_css r)\<rparr> \<in> set (emitted out)))
         \<and> emitted out = concat (map (emit_of e st') (css_assets b))"
proof -
  note pa = generateBundle_wf [OF run wf]
  have fa: "(k, a) \<in> set (css_assets b)" using mem ext by (simp add: set_css_assets)
  from purge_assets_calls [OF pa] have
    "list_all2 (\<lambda>fa args. \<exists>res. engine_call e st' fa = Inr (args, res)) (css_assets b) (purge_calls out)"
    by simp
  from list_all2_left_ex [OF this fa] obtain args res where
    c: "engine_call e st' (k, a) = Inr (args, res)"
    by blast
  have bdl: "out_bundle out = filter (\<lambda>kv. fst kv \<notin> deleted e st' (css_assets b)) b"
    using purge_assets_bundle [OF pa] by simp
  have em: "emitted out = concat (map (emit_of e st') (css_assets b))"
    using purge_assets_emitted [OF pa] by simp
  have "case res of
          [] \<Rightarrow> (k, Asset a) \<in> set (out_bundle out)
        | r # _ \<Rightarrow> k \<notin> fst ` set (out_bundle out) \<and> a\<lparr>source := Text (res_css r)\<rparr> \<in> set (emitted out)"
  proof (cases res)
    case Nil
    have "k \<notin> deleted e st' (css_assets b)"
    proof
      assume "k \<in> deleted e st' (css_assets b)"
      from deleted_css_keys [OF wf this] obtain a' where
        m: "(k, Asset a') \<in> set b" and r: "first_result e st' (k, a') \<noteq> None"
        by blast
      from eq_key_imp_eq_value [OF bundle_wf_distinct [OF wf] m mem] have "a' = a" by simp
      with r c Nil show False by (simp add: first_result_def)
    qed
    with mem Nil show ?thesis by (simp add: bdl)
  next
    case (Cons r rs)
    have f: "first_result e st' (k, a) = Some r" using c Cons by (simp add: first_result_def)
    have "fileName a = k" by (rule bundle_wf_fileName [OF wf mem])
    with fa f have "k \<in> deleted e st' (css_assets b)" by (force simp: deleted_def)
    then have 1: "k \<notin> fst ` set (out_bundle out)" by (auto simp: bdl)
    have "a\<lparr>source := Text (res_css r)\<rparr> \<in> set (emit_of e st' (k, a))"
      by (simp add: emit_of_def f)
    with fa have 2: "a\<lparr>source := Text (res_css r)\<rparr> \<in> set (emitted out)"
      unfolding em by auto
    from 1 2 Cons show ?thesis by simp
  qed
  with c em show ?thesis by blast
qed

lemma ex_wf: "bundle_wf ex_bundle"
  by (simp add: bundle_wf_def ex_bundle_def entry_fileName_def ex_main_def ex_app_def ex_keep_def
      ex_logo_def)

lemma ex_plugin1_fields:
  "viteConfig ex_plugin1 = Some ''/proj''" "purgeOptions ex_plugin1 = Some ex_options"
  by (simp_all add: ex_plugin1_def ex_plugin_eq)

lemma ex_EXT_CSS: "EXT_CSS ''app.css''" "EXT_CSS ''keep.css''" "\<not> EXT_CSS ''logo.png''"
    "\<not> EXT_CSS ''main.js''"
  by (simp_all add: EXT_CSS_def)

theorem css_asset_replaced_when_engine_answers_witness:
  "generateBundle ex_env ex_plugin ex_bundle = Inr (ex_plugin1, ex_outcome (standard ex_plugin1))
   \<and> bundle_wf ex_bundle
   \<and> (''app.css'', Asset ex_app) \<in> set ex_bundle \<and> EXT_CSS ''app.css''
   \<and> (''keep.css'', Asset ex_keep) \<in> set ex_bundle \<and> EXT_CSS ''keep.css''
   \<and> ''app.css'' \<notin> fst ` set (out_bundle (ex_outcome (standard ex_plugin1)))
   \<and> ex_app\<lparr>source := Text ''.btn{}''\<rparr> \<in> set (emitted (ex_outcome (standard ex_plugin1)))
   \<and> (''keep.css'', Asset ex_keep) \<in> set (out_bundle (ex_outcome (standard ex_plugin1)))
   \<and> emitted (ex_outcome (standard ex_plugin1)) = [ex_app\<lparr>source := Text ''.btn{}''\<rparr>]"
proof -
  note T = css_asset_replaced_when_engine_answers [OF ex_run1 ex_wf]
  have m1: "(''app.css'', Asset ex_app) \<in> set ex_bundle" by (simp add: ex_bundle_def)
  have m2: "(''keep.css'', Asset ex_keep) \<in> set ex_bundle" by (simp add: ex_bundle_def)
  from T [OF m1 ex_EXT_CSS(1)]
  have 1: "''app.css'' \<notin> fst ` set (out_bundle (ex_outcome (standard ex_plugin1)))
      \<and> ex_app\<lparr>source := Text ''.btn{}''\<rparr> \<in> set (emitted (ex_outcome (standard ex_plugin1)))"
    unfolding ex_engine(1) [OF ex_plugin1_fields] by auto
  from T [OF m2 ex_EXT_CSS(2)]
  have 2: "(''keep.css'', Asset ex_keep) \<in> set (out_bundle (ex_outcome (standard ex_plugin1)))"
    unfolding ex_engine(2) [OF ex_plugin1_fields] by auto
  have 3: "emitted (ex_outcome (standard ex_plugin1)) = [ex_app\<lparr>source := Text ''.btn{}''\<rparr>]"
    by (simp add: ex_outcome_def)
  from 1 2 3 m1 m2 ex_EXT_CSS ex_run1 ex_wf show ?thesis by blast
qed

lemma not_css_not_deleted:
  assumes wf: "bundle_wf b" and mem: "(k, v) \<in> set b" and non: "\<not> is_css_asset (k, v)"
  shows "k \<notin> fst ` set (css_assets b)" and "k \<notin> deleted e st (css_assets b)"
proof -
  show 1: "k \<notin> fst ` set (css_assets b)"
  proof
    assume "k \<in> fst ` set (css_assets b)"
    then obtain a where m: "(k, Asset a) \<in> set b" and c: "EXT_CSS k"
      by (auto simp: set_css_assets)
    from eq_key_imp_eq_value [OF bundle_wf_distinct [OF wf] m mem] have "v = Asset a" by simp
    with c non show False by (simp add: is_css_asset_def)
  qed
  show "k \<notin> deleted e st (css_assets b)"
  proof
    assume "k \<in> deleted e st (css_assets b)"
    from deleted_css_keys [OF wf this] have "k \<in> fst ` set (css_assets b)"
      by (force simp: set_css_assets)
    with 1 show False by simp
  qed
qed

text \<open>
  C6. In a bundle as the host builds it, take an entry that is a chunk, or an asset whose
  key does not end in \<^verbatim>\<open>.css\<close>, and a run of the hook that returns. The entry is still in
  the bundle, the same; no engine call was given a style sheet under its name; and the
  entries of this kind are, in the same order, those the bundle had before.
\<close>

theorem other_entries_untouched:
  assumes run: "generateBundle e st b = Inr (st', out)"
    and wf: "bundle_wf b"
    and mem: "(k, v) \<in> set b"
    and non: "\<not> is_css_asset (k, v)"
  shows "(k, v) \<in> set (out_bundle out)
         \<and> list_all (\<lambda>args. k \<notin> set (map css_name (css args))) (purge_calls out)
         \<and> filter (\<lambda>kv. \<not> is_css_asset kv) (out_bundle out) = filter (\<lambda>kv. \<not> is_css_asset kv) b"
proof (intro conjI)
  note pa = generateBundle_wf [OF run wf]
  have bdl: "out_bundle out = filter (\<lambda>kv. fst kv \<notin> deleted e st' (css_assets b)) b"
    using purge_assets_bundle [OF pa] by simp
  show "(k, v) \<in> set (out_bundle out)"
    using mem not_css_not_deleted(2) [OF wf mem non] by (simp add: bdl)
  have calls: "list_all2 (\<lambda>fa args. \<exists>root src. viteConfig st = Some root \<and> source (snd fa) = Text src \<and>
           args = make_args e (purgeOptions st) root (standard st') (fst fa) src)
         (css_assets b) (purge_calls out)"
    using generateBundle_calls [OF run] collect_assets_distinct [OF bundle_wf_distinct [OF wf]]
    by simp
  show "list_all (\<lambda>args. k \<notin> set (map css_name (css args))) (purge_calls out)"
    unfolding list_all_iff
  proof
    fix args
    assume "args \<in> set (purge_calls out)"
    from list_all2_right_ex [OF calls this] obtain fa root src where
      fa: "fa \<in> set (css_assets b)" and
      a: "args = make_args e (purgeOptions st) root (standard st') (fst fa) src"
      by blast
    from fa not_css_not_deleted(1) [OF wf mem non] have "fst fa \<noteq> k" by auto
    with a show "k \<notin> set (map css_name (css args))" by (simp add: make_args_def)
  qed
  have "\<not> is_css_asset kv \<Longrightarrow> fst kv \<notin> deleted e st' (css_assets b)" if "kv \<in> set b" for kv
    using not_css_not_deleted(2) [OF wf, of "fst kv" "snd kv"] that by simp
  then show "filter (\<lambda>kv. \<not> is_css_asset kv) (out_bundle out) = filter (\<lambda>kv. \<not> is_css_asset kv) b"
    unfolding bdl filter_filter by (intro filter_cong) auto
qed

theorem other_entries_untouched_witness:
  "generateBundle ex_env ex_plugin ex_bundle = Inr (ex_plugin1, ex_outcome (standard ex_plugin1))
   \<and> bundle_wf ex_bundle
   \<and> (''logo.png'', Asset ex_logo) \<in> set ex_bundle \<and> \<not> is_css_asset (''logo.png'', Asset ex_logo)
   \<and> (''main.js'', Chunk ex_main) \<in> set ex_bundle \<and> \<not> is_css_asset (''main.js'', Chunk ex_main)
   \<and> (''logo.png'', Asset ex_logo) \<in> set (out_bundle (ex_outcome (standard ex_plugin1)))
   \<and> (''main.js'', Chunk ex_main) \<in> set (out_bundle (ex_outcome (standard ex_plugin1)))
   \<and> map (\<lambda>args. map css_name (css args)) (purge_calls (ex_outcome (standard ex_plugin1))) =
       [[''app.css''], [''keep.css'']]
   \<and> filter (\<lambda>kv. \<not> is_css_asset kv) (out_bundle (ex_outcome (standard ex_plugin1))) =
       [(''main.js'', Chunk ex_main), (''logo.png'', Asset ex_logo)]"
proof -
  note T = other_entries_untouched [OF ex_run1 ex_wf]
  have m1: "(''logo.png'', Asset ex_logo) \<in> set ex_bundle" by (simp add: ex_bundle_def)
  have m2: "(''main.js'', Chunk ex_main) \<in> set ex_bundle" by (simp add: ex_bundle_def)
  have n1: "\<not> is_css_asset (''logo.png'', Asset ex_logo)" by (simp add: is_css_asset_def ex_EXT_CSS)
  have n2: "\<not> is_css_asset (''main.js'', Chunk ex_main)" by (simp add: is_css_asset_def)
  have f: "filter (\<lambda>kv. \<not> is_css_asset kv) ex_bundle =
       [(''main.js'', Chunk ex_main), (''logo.png'', Asset ex_logo)]"
    by (simp add: ex_bundle_def is_css_asset_def ex_EXT_CSS)
  have c: "map (\<lambda>args. map css_name (css args)) (purge_calls (ex_outcome (standard ex_plugin1))) =
       [[''app.css''], [''keep.css'']]"
    by (simp add: ex_outcome_def ex_args_def)
  from T [OF m1 n1] T [OF m2 n2] f c m1 m2 n1 n2 ex_run1 ex_wf show ?thesis by simp
qed

text \<open>
  C8. A run of the hook that returns has called the engine once for each collected CSS
  asset, in order, and the root of the configuration was known. Whatever the user's
  options say, the call's \<^verbatim>\<open>css\<close> is the one entry made of the asset's source text,
  trimmed, under the asset's key; \<^verbatim>\<open>rejected\<close> and \<^verbatim>\<open>rejectedCss\<close> are true; and \<^verbatim>\<open>content\<close>
  is the glob \<^verbatim>\<open>**/*.html\<close> joined to the root, followed by the user's content entries.
\<close>

theorem engine_call_arguments:
  assumes run: "generateBundle e st b = Inr (st', out)"
  shows "list_all2
           (\<lambda>fa args. \<exists>root src. viteConfig st = Some root \<and> source (snd fa) = Text src \<and>
              css args = [\<lparr>raw = trim src, css_name = fst fa\<rparr>] \<and>
              rejected args \<and> rejectedCss args \<and>
              content args =
                Glob (path_join e root ''**/*.html'') # nullish (user_content (purgeOptions st)) [])
           (collect_assets b []) (purge_calls out)"
  using generateBundle_calls [OF run]
  by (rule list_all2_mono) (auto simp: make_args_def)

theorem engine_call_arguments_witness:
  "generateBundle ex_env ex_plugin ex_bundle = Inr (ex_plugin1, ex_outcome (standard ex_plugin1))
   \<and> opt_rejected ex_options = Some False
   \<and> collect_assets ex_bundle [] = [(''app.css'', ex_app), (''keep.css'', ex_keep)]
   \<and> source ex_app = Text '' .btn{} .unused{} ''
   \<and> map css (purge_calls (ex_outcome (standard ex_plugin1))) =
       [[\<lparr>raw = ''.btn{} .unused{}'', css_name = ''app.css''\<rparr>],
        [\<lparr>raw = ''.k{}'', css_name = ''keep.css''\<rparr>]]
   \<and> map rejected (purge_calls (ex_outcome (standard ex_plugin1))) = [True, True]
   \<and> map rejectedCss (purge_calls (ex_outcome (standard ex_plugin1))) = [True, True]
   \<and> map content (purge_calls (ex_outcome (standard ex_plugin1))) =
       [[Glob ''/proj/**/*.html'', Glob ''src/**/*.svelte''],
        [Glob ''/proj/**/*.html'', Glob ''src/**/*.svelte'']]"
proof -
  have c: "purge_calls (ex_outcome (standard ex_plugin1)) =
      [ex_args (standard ex_plugin1) ''app.css'' ''.btn{} .unused{}'',
       ex_args (standard ex_plugin1) ''keep.css'' ''.k{}'']"
    by (simp add: ex_outcome_def)
  have u: "nullish (user_content (purgeOptions ex_plugin)) [] = [Glob ''src/**/*.svelte'']"
    by (simp add: ex_plugin_eq user_content_def nullish_def ex_options_def)
  have v: "viteConfig ex_plugin = Some ''/proj''" by (simp add: ex_plugin_eq)
  have j: "path_join ex_env ''/proj'' ''**/*.html'' = ''/proj/**/*.html''"
    by (simp add: ex_env_def)
  have s: "source ex_app = Text '' .btn{} .unused{} ''" "source ex_keep = Text ''.k{}''"
    by (simp_all add: ex_app_def ex_keep_def)
  from engine_call_arguments [OF ex_run1]
  have "css (ex_args (standard ex_plugin1) ''app.css'' ''.btn{} .unused{}'') =
          [\<lparr>raw = ''.btn{} .unused{}'', css_name = ''app.css''\<rparr>] \<and>
        rejected (ex_args (standard ex_plugin1) ''app.css'' ''.btn{} .unused{}'') \<and>
        rejectedCss (ex_args (standard ex_plugin1) ''app.css'' ''.btn{} .unused{}'') \<and>
        content (ex_args (standard ex_plugin1) ''app.css'' ''.btn{} .unused{}'') =
          [Glob ''/proj/**/*.html'', Glob ''src/**/*.svelte''] \<and>
        css (ex_args (standard ex_plugin1) ''keep.css'' ''.k{}'') =
          [\<lparr>raw = ''.k{}'', css_name = ''keep.css''\<rparr>] \<and>
        rejected (ex_args (standard ex_plugin1) ''keep.css'' ''.k{}'') \<and>
        rejectedCss (ex_args (standard ex_plugin1) ''keep.css'' ''.k{}'') \<and>
        content (ex_args (standard ex_plugin1) ''keep.css'' ''.k{}'') =
          [Glob ''/proj/**/*.html'', Glob ''src/**/*.svelte'']"
    unfolding ex_collect c u v by (simp add: s ex_trim j)
  then show ?thesis
    using ex_run1 ex_collect s unfolding c by (simp add: ex_options_def)
qed

lemma merged_safelist_passthrough:
  "sl_deep (merged_safelist po std) = (case user_safelist po of None \<Rightarrow> None | Some s \<Rightarrow> sl_deep s)"
  "sl_variables (merged_safelist po std) =
     (case user_safelist po of None \<Rightarrow> None | Some s \<Rightarrow> sl_variables s)"
  "sl_keyframes (merged_safelist po std) =
     (case user_safelist po of None \<Rightarrow> None | Some s \<Rightarrow> sl_keyframes s)"
  by (simp_all add: merged_safelist_def split: option.splits)

text \<open>
  C9. The user's safelist reaches the engine as written. In every engine call of a run,
  the \<^verbatim>\<open>standard\<close> list carries the user's \<^verbatim>\<open>standard\<close> entries right after the six baseline
  entries, \<^verbatim>\<open>greedy\<close> is the baseline pattern followed by the user's \<^verbatim>\<open>greedy\<close> entries, and
  \<^verbatim>\<open>deep\<close>, \<^verbatim>\<open>variables\<close> and \<^verbatim>\<open>keyframes\<close> are the user's. Nothing is asked of these entries:
  neither css-what nor \<^verbatim>\<open>new RegExp\<close> sees them.
\<close>

theorem user_safelist_entries_verbatim:
  assumes po: "purgeOptions st = po"
    and std: "standard st = standard (purgeCss dx po) @ map Str ds"
    and run: "generateBundle e st b = Inr (st', out)"
  shows "list_all
           (\<lambda>args.
              map_option (\<lambda>s. take (length (nullish (user_standard po) [])) (drop 6 s))
                (sl_standard (safelist args)) = Some (nullish (user_standard po) []) \<and>
              sl_greedy (safelist args) = Some (Rx ''svelte-'' # nullish (user_greedy po) []) \<and>
              sl_deep (safelist args) =
                (case user_safelist po of None \<Rightarrow> None | Some s \<Rightarrow> sl_deep s) \<and>
              sl_variables (safelist args) =
                (case user_safelist po of None \<Rightarrow> None | Some s \<Rightarrow> sl_variables s) \<and>
              sl_keyframes (safelist args) =
                (case user_safelist po of None \<Rightarrow> None | Some s \<Rightarrow> sl_keyframes s))
           (purge_calls out)"
proof -
  have s: "standard st' =
      [Str ''*'', Str ''html'', Str ''body'', Rx ''aria-current'', Rx ''svelte-'',
       Rx (''^'' @ [char_of (92 :: nat)] @ '':[-a-z]+$'')]
      @ nullish (user_standard po) []
      @ map Str (ds @ filter (admitted e) (selectors st'))"
    using generateBundle_standard [OF run] std by (simp add: purgeCss_def)
  have t: "take (length (nullish (user_standard po) [])) (drop 6 (standard st')) =
      nullish (user_standard po) []"
    unfolding s by simp
  from generateBundle_calls_standard [OF run]
  have "list_all (\<lambda>args. safelist args = merged_safelist po (standard st')) (purge_calls out)"
    using po by simp
  then show ?thesis
    unfolding list_all_iff by (auto simp: t merged_safelist_passthrough)
qed

theorem user_safelist_entries_verbatim_witness:
  "purgeOptions ex_plugin = Some ex_options
   \<and> generateBundle ex_env ex_plugin ex_bundle = Inr (ex_plugin1, ex_outcome (standard ex_plugin1))
   \<and> nullish (user_standard (Some ex_options)) [] = [Str ''x('', Rx ''^my-'']
   \<and> \<not> admitted ex_env ''x(''
   \<and> map (\<lambda>args. map_option (\<lambda>s. take 2 (drop 6 s)) (sl_standard (safelist args)))
        (purge_calls (ex_outcome (standard ex_plugin1))) =
       [Some [Str ''x('', Rx ''^my-''], Some [Str ''x('', Rx ''^my-'']]
   \<and> map (\<lambda>args. sl_greedy (safelist args)) (purge_calls (ex_outcome (standard ex_plugin1))) =
       [Some [Rx ''svelte-'', Rx ''g(''], Some [Rx ''svelte-'', Rx ''g('']]
   \<and> map (\<lambda>args. sl_deep (safelist args)) (purge_calls (ex_outcome (standard ex_plugin1))) =
       [Some [Rx ''deep''], Some [Rx ''deep'']]"
proof -
  have c: "purge_calls (ex_outcome (standard ex_plugin1)) =
      [ex_args (standard ex_plugin1) ''app.css'' ''.btn{} .unused{}'',
       ex_args (standard ex_plugin1) ''keep.css'' ''.k{}'']"
    by (simp add: ex_outcome_def)
  have g: "nullish (user_greedy (Some ex_options)) [] = [Rx ''g('']"
    by (simp add: nullish_def user_greedy_def user_safelist_def ex_options_def)
  have d: "(case user_safelist (Some ex_options) of None \<Rightarrow> None | Some s \<Rightarrow> sl_deep s) =
      Some [Rx ''deep'']"
    by (simp add: user_safelist_def ex_options_def)
  have a: "\<not> admitted ex_env ''x(''" by (simp add: admitted_def ex_env_def)
  from user_safelist_entries_verbatim
    [OF ex_purgeOptions ex_standard_fresh [of "\<lambda>s. []"] ex_run1]
  have "map (\<lambda>args. map_option (\<lambda>s. take 2 (drop 6 s)) (sl_standard (safelist args)))
        (purge_calls (ex_outcome (standard ex_plugin1))) =
       [Some [Str ''x('', Rx ''^my-''], Some [Str ''x('', Rx ''^my-'']]
   \<and> map (\<lambda>args. sl_greedy (safelist args)) (purge_calls (ex_outcome (standard ex_plugin1))) =
       [Some [Rx ''svelte-'', Rx ''g(''], Some [Rx ''svelte-'', Rx ''g('']]
   \<and> map (\<lambda>args. sl_deep (safelist args)) (purge_calls (ex_outcome (standard ex_plugin1))) =
       [Some [Rx ''deep''], Some [Rx ''deep'']]"
    unfolding c ex_user_standard g d
    by (simp add: ex_args_def ex_plugin1_def ex_plugin_eq ex_standard0_def)
  with a ex_run1 ex_purgeOptions ex_user_standard show ?thesis by blast
qed

text \<open>
  C10. \<^verbatim>\<open>selectors\<close> and \<^verbatim>\<open>standard\<close> belong to the plugin, not to a run: a new plugin has
  an empty \<^verbatim>\<open>selectors\<close>, and a run starts from what the run before left. When the hook
  runs a second time on the plugin, the tokens of the first run are still in
  \<^verbatim>\<open>selectors\<close>, \<^verbatim>\<open>standard\<close> gets the admitted tokens appended once more, and a token
  admitted in the first run stands at least twice in \<^verbatim>\<open>standard\<close>, which is the safelist
  of every engine call of the second run.
\<close>

theorem second_run_appends_selectors_again:
  assumes run1: "generateBundle e st b1 = Inr (st1, out1)"
    and run2: "generateBundle e st1 b2 = Inr (st2, out2)"
    and t: "t \<in> set (selectors st1)"
    and adm: "admitted e t"
  shows "selectors (purgeCss dx po) = []
         \<and> prefix (selectors st1) (selectors st2)
         \<and> standard st2 =
             standard st @ map Str (filter (admitted e) (selectors st1))
                         @ map Str (filter (admitted e) (selectors st2))
         \<and> 2 \<le> count_list (standard st2) (Str t)
         \<and> list_all (\<lambda>args. sl_standard (safelist args) = Some (standard st2)) (purge_calls out2)"
proof (intro conjI)
  show "selectors (purgeCss dx po) = []" by (simp add: purgeCss_def)
  show p: "prefix (selectors st1) (selectors st2)"
    using generateBundle_selectors [OF run2] by (rule prefix_scan_modules)
  show s: "standard st2 =
      standard st @ map Str (filter (admitted e) (selectors st1))
                  @ map Str (filter (admitted e) (selectors st2))"
    by (simp add: generateBundle_standard [OF run2] generateBundle_standard [OF run1])
  from p t have t2: "t \<in> set (selectors st2)" by (auto simp: prefix_def)
  have "Str t \<in> set (map Str (filter (admitted e) (selectors st1)))"
    using t adm by simp
  then have "count_list (map Str (filter (admitted e) (selectors st1))) (Str t) \<noteq> 0"
    by (simp only: count_list_0_iff not_not)
  moreover have "Str t \<in> set (map Str (filter (admitted e) (selectors st2)))"
    using t2 adm by simp
  then have "count_list (map Str (filter (admitted e) (selectors st2))) (Str t) \<noteq> 0"
    by (simp only: count_list_0_iff not_not)
  ultimately show "2 \<le> count_list (standard st2) (Str t)"
    unfolding s by simp
  from generateBundle_calls_standard [OF run2]
  show "list_all (\<lambda>args. sl_standard (safelist args) = Some (standard st2)) (purge_calls out2)"
    by (simp add: list_all_iff)
qed

theorem second_run_appends_selectors_again_witness:
  "generateBundle ex_env ex_plugin ex_bundle = Inr (ex_plugin1, ex_outcome (standard ex_plugin1))
   \<and> generateBundle ex_env ex_plugin1 ex_bundle = Inr (ex_plugin2, ex_outcome (standard ex_plugin2))
   \<and> ''btn'' \<in> set (selectors ex_plugin1) \<and> admitted ex_env ''btn''
   \<and> selectors ex_plugin2 = selectors ex_plugin1
   \<and> standard ex_plugin2 =
       standard ex_plugin @ [Str ''btn'', Str ''btn-primary'', Str ''btn'', Str ''btn-primary'']
   \<and> 2 \<le> count_list (standard ex_plugin2) (Str ''btn'')
   \<and> map (\<lambda>args. sl_standard (safelist args)) (purge_calls (ex_outcome (standard ex_plugin2))) =
       [Some (standard ex_plugin2), Some (standard ex_plugin2)]"
proof -
  have m: "''btn'' \<in> set (selectors ex_plugin1)" by (simp add: ex_plugin1_def ex_selectors_def)
  have a: "admitted ex_env ''btn''" by (simp add: admitted_def ex_env_def)
  note T = second_run_appends_selectors_again [OF ex_run1 ex_run2 m a, of "\<lambda>s. []" None]
  have 1: "2 \<le> count_list (standard ex_plugin2) (Str ''btn'')"
    using T by blast
  have 2: "map (\<lambda>args. sl_standard (safelist args)) (purge_calls (ex_outcome (standard ex_plugin2))) =
       [Some (standard ex_plugin2), Some (standard ex_plugin2)]"
    using T [THEN conjunct2, THEN conjunct2, THEN conjunct2, THEN conjunct2]
    by (simp add: ex_outcome_def)
  have 3: "standard ex_plugin2 =
       standard ex_plugin @ [Str ''btn'', Str ''btn-primary'', Str ''btn'', Str ''btn-primary'']"
    by (simp add: ex_plugin2_def ex_plugin_eq)
  have 4: "selectors ex_plugin2 = selectors ex_plugin1"
    by (simp add: ex_plugin2_def ex_plugin1_def)
  from 1 2 3 4 m a ex_run1 ex_run2 show ?thesis by blast
qed

lemma scan_module_tokens:
  "scan_module e ex i sel = Inr sel' \<Longrightarrow>
   sel' = fold set_add (if skipped e i then [] else module_tokens e ex i) sel"
  by (auto simp: scan_module_def skipped_def module_tokens_def walk_tree_texts
      split: option.splits if_splits sum.splits)

lemma scan_modules_tokens:
  "scan_modules e ex ids sel = Inr sel' \<Longrightarrow> sel' = fold set_add (pass_tokens e ex ids) sel"
proof (induction ids arbitrary: sel)
  case Nil
  then show ?case by (simp add: pass_tokens_def)
next
  case (Cons i ids)
  then obtain s where s: "scan_module e ex i sel = Inr s" and r: "scan_modules e ex ids s = Inr sel'"
    by (auto split: sum.splits)
  from scan_module_tokens [OF s] Cons.IH [OF r] show ?case
    by (simp add: pass_tokens_def)
qed

lemma set_pass_tokens:
  "set (pass_tokens e ex ids) =
     (\<Union>i \<in> set (filter (\<lambda>i. \<not> skipped e i) ids). set (module_tokens e ex i))"
  by (auto simp: pass_tokens_def)

lemma scan_modules_parsed:
  "scan_modules e ex ids sel = Inr sel' \<Longrightarrow> i \<in> set ids \<Longrightarrow>
   getModuleInfo e i = Some info \<Longrightarrow> isIncluded info = Some True \<Longrightarrow> code info = Some c \<Longrightarrow>
   \<exists>ast. this_parse e c = Inr ast"
proof (induction ids arbitrary: sel)
  case Nil
  then show ?case by simp
next
  case (Cons j ids)
  from Cons.prems(1) obtain s where s: "scan_module e ex j sel = Inr s"
    and r: "scan_modules e ex ids s = Inr sel'"
    by (auto split: sum.splits)
  show ?case
  proof (cases "i = j")
    case True
    with s Cons.prems show ?thesis
      by (cases "this_parse e c") (auto simp: scan_module_def)
  next
    case False
    with Cons.prems have "i \<in> set ids" by simp
    from Cons.IH [OF r this Cons.prems(3-5)] show ?thesis .
  qed
qed









lemma ex_module_tokens:
  "module_tokens ex_env ex_extractor ''a.js'' = [''btn'', ''btn-primary'', ''x('', ''item-'', ''btn'']"
  "module_tokens ex_env_watch2 ex_extractor ''a.js'' = [''btn'', ''btn-primary'', ''x('', ''item-'', ''btn'']"
  "module_tokens ex_env_watch2 ex_extractor ''dead.js'' = [''only-dead'']"
  by (simp_all add: module_tokens_def ex_env_def ex_env_watch2_def ex_env_watch1_def ex_ast_def
      ex_dead_ast_def ex_extractor_def)





lemma generateBundle_tokens:
  "generateBundle e st b = Inr (st', out) \<Longrightarrow>
   selectors st' = fold set_add (pass_tokens e (extractor st) (moduleIds st)) (selectors st)"
  by (rule scan_modules_tokens [OF generateBundle_selectors])

lemma module_tokens_included:
  "getModuleInfo e i = Some info \<Longrightarrow> code info = Some c \<Longrightarrow> this_parse e c = Inr ast \<Longrightarrow>
   module_tokens e ex i = concat (map ex (tree_texts ast))"
  by (simp add: module_tokens_def)

lemma skipped_included:
  "getModuleInfo e i = Some info \<Longrightarrow> isIncluded info = Some True \<Longrightarrow> code info = Some c \<Longrightarrow>
   \<not> skipped e i"
  by (simp add: skipped_def)

text \<open>
  C7. The walk enters every node of the tree, a node before its children. The nodes that
  yield a text are the string literals (their value), the identifiers (their name) and
  the template elements (the cooked text, or the raw text when there is no cooked text);
  each text goes through the extractor and every token it returns is added to
  \<^verbatim>\<open>selectors\<close>. So the walk adds, in order, the tokens of the texts of the tree, and a
  module that is included and parses is scanned by this walk. The first loop of the hook
  does this for each tracked module in turn: a run that returns has parsed every tracked
  module that is included, and the \<^verbatim>\<open>selectors\<close> of the plugin after the run are those
  before it with the tokens of these modules added in order, so that every token of
  every text of such a module's tree is in the set.
\<close>

theorem hook_walks_included_modules_for_three_node_kinds:
  "walk ex ast sel = fold set_add (concat (map ex (tree_texts ast))) sel
   \<and> set (walk ex ast sel) = set sel \<union> (\<Union>t \<in> set (tree_texts ast). set (ex t))
   \<and> (getModuleInfo e i = Some info \<and> isIncluded info = Some True \<and> code info = Some c \<and>
      this_parse e c = Inr ast \<longrightarrow>
        scan_module e ex i sel = Inr (fold set_add (concat (map ex (tree_texts ast))) sel))
   \<and> (scan_modules e ex ids sel = Inr sel' \<longrightarrow> sel' = fold set_add (pass_tokens e ex ids) sel)
   \<and> (generateBundle e st b = Inr (st', out) \<longrightarrow>
        selectors st' = fold set_add (pass_tokens e (extractor st) (moduleIds st)) (selectors st)
        \<and> (i \<in> set (moduleIds st) \<and> getModuleInfo e i = Some info \<and>
           isIncluded info = Some True \<and> code info = Some c \<longrightarrow>
             (\<exists>tree. this_parse e c = Inr tree \<and>
                module_tokens e (extractor st) i = concat (map (extractor st) (tree_texts tree)) \<and>
                (\<forall>t \<in> set (tree_texts tree). set (extractor st t) \<subseteq> set (selectors st')))))"
proof (intro conjI impI)
  show "walk ex ast sel = fold set_add (concat (map ex (tree_texts ast))) sel"
    by (rule walk_tree_texts)
  show "set (walk ex ast sel) = set sel \<union> (\<Union>t \<in> set (tree_texts ast). set (ex t))"
    by (simp add: walk_tree_texts set_fold_set_add)
next
  assume "getModuleInfo e i = Some info \<and> isIncluded info = Some True \<and> code info = Some c \<and>
      this_parse e c = Inr ast"
  then show "scan_module e ex i sel = Inr (fold set_add (concat (map ex (tree_texts ast))) sel)"
    by (simp add: scan_module_def walk_tree_texts)
next
  assume "scan_modules e ex ids sel = Inr sel'"
  then show "sel' = fold set_add (pass_tokens e ex ids) sel" by (rule scan_modules_tokens)
next
  assume run: "generateBundle e st b = Inr (st', out)"
  then show eq: "selectors st' =
      fold set_add (pass_tokens e (extractor st) (moduleIds st)) (selectors st)"
    by (rule generateBundle_tokens)
  assume a: "i \<in> set (moduleIds st) \<and> getModuleInfo e i = Some info \<and>
           isIncluded info = Some True \<and> code info = Some c"
  then have i: "i \<in> set (moduleIds st)" and g: "getModuleInfo e i = Some info"
    and inc: "isIncluded info = Some True" and c: "code info = Some c"
    by simp_all
  from scan_modules_parsed [OF generateBundle_selectors [OF run] i g inc c]
  obtain tree where p: "this_parse e c = Inr tree" by blast
  note m = module_tokens_included [OF g c p, of "extractor st"]
  have "set (module_tokens e (extractor st) i) \<subseteq> set (selectors st')"
    unfolding eq set_fold_set_add set_pass_tokens
    using i skipped_included [OF g inc c] by auto
  then have "\<forall>t \<in> set (tree_texts tree). set (extractor st t) \<subseteq> set (selectors st')"
    unfolding m by auto
  with p m show "\<exists>tree. this_parse e c = Inr tree \<and>
      module_tokens e (extractor st) i = concat (map (extractor st) (tree_texts tree)) \<and>
      (\<forall>t \<in> set (tree_texts tree). set (extractor st t) \<subseteq> set (selectors st'))"
    by blast
qed

lemma ex_pass_tokens:
  "pass_tokens ex_env ex_extractor [''a.js'', ''dead.js''] =
     [''btn'', ''btn-primary'', ''x('', ''item-'', ''btn'']"
  by (simp add: pass_tokens_def ex_skipped ex_module_tokens)

theorem hook_walks_included_modules_for_three_node_kinds_witness:
  "tree_texts ex_ast = [''btn btn-primary'', ''x('', ''item-'', ''btn'']
   \<and> walk ex_extractor ex_ast [] = [''btn'', ''btn-primary'', ''x('', ''item-'']
   \<and> walk ex_extractor (Node (TemplateElement (Some ''cooked'') ''raw'') []) [] = [''cooked'']
   \<and> walk ex_extractor (Node (TemplateElement None ''raw'') []) [] = [''raw'']
   \<and> walk ex_extractor (Node (Literal (VRegExp ''a+'')) []) [] = []
   \<and> scan_module ex_env ex_extractor ''a.js'' [] = Inr [''btn'', ''btn-primary'', ''x('', ''item-'']
   \<and> scan_modules ex_env ex_extractor [''a.js'', ''dead.js''] [] =
       Inr [''btn'', ''btn-primary'', ''x('', ''item-'']
   \<and> generateBundle ex_env ex_plugin ex_bundle = Inr (ex_plugin1, ex_outcome (standard ex_plugin1))
   \<and> moduleIds ex_plugin = [''a.js'', ''dead.js''] \<and> selectors ex_plugin = []
   \<and> extractor ex_plugin = ex_extractor
   \<and> selectors ex_plugin1 = [''btn'', ''btn-primary'', ''x('', ''item-'']
   \<and> this_parse ex_env ''A'' = Inr ex_ast
   \<and> set (ex_extractor ''btn btn-primary'') \<subseteq> set (selectors ex_plugin1)
   \<and> set (ex_extractor ''item-'') \<subseteq> set (selectors ex_plugin1)"
proof -
  note T = hook_walks_included_modules_for_three_node_kinds
  have t: "tree_texts ex_ast = [''btn btn-primary'', ''x('', ''item-'', ''btn'']"
    by (simp add: ex_ast_def)
  have 1: "walk ex_extractor ex_ast [] = [''btn'', ''btn-primary'', ''x('', ''item-'']"
    using T [where ex = ex_extractor and ast = ex_ast and sel = "[]"] unfolding t
    by (simp add: ex_extractor_def set_add_def)
  have 2: "walk ex_extractor (Node (TemplateElement (Some ''cooked'') ''raw'') []) [] = [''cooked'']"
    using T [where ex = ex_extractor and ast = "Node (TemplateElement (Some ''cooked'') ''raw'') []"
        and sel = "[]"]
    by (simp add: ex_extractor_def set_add_def)
  have 3: "walk ex_extractor (Node (TemplateElement None ''raw'') []) [] = [''raw'']"
    using T [where ex = ex_extractor and ast = "Node (TemplateElement None ''raw'') []" and sel = "[]"]
    by (simp add: ex_extractor_def set_add_def)
  have 4: "walk ex_extractor (Node (Literal (VRegExp ''a+'')) []) [] = []"
    using T [where ex = ex_extractor and ast = "Node (Literal (VRegExp ''a+'')) []" and sel = "[]"]
    by simp
  have info: "getModuleInfo ex_env ''a.js'' = Some \<lparr>isIncluded = Some True, code = Some ''A''\<rparr>"
    and parse: "this_parse ex_env ''A'' = Inr ex_ast"
    by (simp_all add: ex_env_def)
  have 5: "scan_module ex_env ex_extractor ''a.js'' [] = Inr [''btn'', ''btn-primary'', ''x('', ''item-'']"
    using T [where ex = ex_extractor and ast = ex_ast and sel = "[]" and e = ex_env and i = "''a.js''"
        and info = "\<lparr>isIncluded = Some True, code = Some ''A''\<rparr>" and c = "''A''"]
      info parse unfolding t
    by (simp add: ex_extractor_def set_add_def)
  have f: "fold set_add [''btn'', ''btn-primary'', ''x('', ''item-'', ''btn''] [] =
      [''btn'', ''btn-primary'', ''x('', ''item-'']"
    by (simp add: set_add_def)
  have 6: "scan_modules ex_env ex_extractor [''a.js'', ''dead.js''] [] =
       Inr [''btn'', ''btn-primary'', ''x('', ''item-'']"
    using ex_scan by (simp add: ex_selectors_def del: scan_modules.simps)
  have sm: "[''btn'', ''btn-primary'', ''x('', ''item-''] =
      fold set_add (pass_tokens ex_env ex_extractor [''a.js'', ''dead.js'']) []"
    using T [where e = ex_env and ex = ex_extractor and ids = "[''a.js'', ''dead.js'']" and sel = "[]"
        and sel' = "[''btn'', ''btn-primary'', ''x('', ''item-'']"] 6
    by blast
  have p: "moduleIds ex_plugin = [''a.js'', ''dead.js'']" "selectors ex_plugin = []"
    "extractor ex_plugin = ex_extractor"
    by (simp_all add: ex_plugin_eq)
  have mem: "''a.js'' \<in> set (moduleIds ex_plugin)" by (simp add: p)
  have inc: "isIncluded \<lparr>isIncluded = Some True, code = Some ''A''\<rparr> = Some True"
    "code \<lparr>isIncluded = Some True, code = Some ''A''\<rparr> = Some ''A''"
    by simp_all
  have H: "selectors ex_plugin1 =
        fold set_add (pass_tokens ex_env (extractor ex_plugin) (moduleIds ex_plugin)) (selectors ex_plugin)
      \<and> (\<exists>tree. this_parse ex_env ''A'' = Inr tree \<and>
           module_tokens ex_env (extractor ex_plugin) ''a.js'' =
             concat (map (extractor ex_plugin) (tree_texts tree)) \<and>
           (\<forall>t \<in> set (tree_texts tree). set (extractor ex_plugin t) \<subseteq> set (selectors ex_plugin1)))"
    using T [where e = ex_env and st = ex_plugin and b = ex_bundle and st' = ex_plugin1
        and out = "ex_outcome (standard ex_plugin1)" and i = "''a.js''"
        and info = "\<lparr>isIncluded = Some True, code = Some ''A''\<rparr>" and c = "''A''"
        and ex = ex_extractor and ast = ex_ast and sel = "[]" and ids = "[]" and sel' = "[]"]
      ex_run1 info mem inc
    by blast
  from H have 7: "selectors ex_plugin1 = [''btn'', ''btn-primary'', ''x('', ''item-'']"
    unfolding p ex_pass_tokens f by simp
  from H obtain tree where tr: "this_parse ex_env ''A'' = Inr tree"
    and al: "\<forall>t \<in> set (tree_texts tree). set (extractor ex_plugin t) \<subseteq> set (selectors ex_plugin1)"
    by blast
  from tr parse have "tree = ex_ast" by simp
  with al have A: "\<forall>t \<in> set (tree_texts ex_ast). set (ex_extractor t) \<subseteq> set (selectors ex_plugin1)"
    by (simp only: p(3))
  have 8: "set (ex_extractor ''btn btn-primary'') \<subseteq> set (selectors ex_plugin1)"
    and 9: "set (ex_extractor ''item-'') \<subseteq> set (selectors ex_plugin1)"
    using A unfolding t by simp_all
  from t 1 2 3 4 5 6 7 8 9 parse p ex_run1 show ?thesis by blast
qed

end
